theory Spec2Isabelle
  imports Complex_Main "HOL-Library.AList"
begin

section \<open>Python values, dictionaries and exceptions\<close>

text \<open>
  The pipeline of \<^verbatim>\<open>backend/llm_service.py\<close> works on the dictionaries that
  \<^verbatim>\<open>json.loads\<close> returns. A value is modelled as \<open>pyval\<close>; a dictionary is an
  association list with Python's insertion order (\<open>AList.update\<close> overwrites in place or
  appends, as item assignment does). Floats are modelled as exact rationals: NaN, the
  infinities and binary rounding error are not represented. \<open>PIso t\<close> is the \<^verbatim>\<open>str\<close>
  that \<^verbatim>\<open>datetime.isoformat()\<close> yields for the naive instant \<open>t\<close>, counted in hours
  from a Monday 00:00.
\<close>

datatype pyval =
    PNone
  | PBool bool
  | PInt int
  | PFloat rat
  | PStr string
  | PIso rat
  | PList "pyval list"
  | PDict "(string \<times> pyval) list"

type_synonym pydict = "(string \<times> pyval) list"

text \<open>
  The content of the message of the timeframe rejection: which way the plan misses the
  timeframe, the hours generated and available, the valid range (printed without
  decimals) and the suggestions.
\<close>

record timeframe_violation =
  error_type :: string
  generated_hours :: rat
  available :: rat
  valid_from :: rat
  valid_to :: rat
  suggestion :: string

datatype error =
    TypeError
  | ValueError
  | KeyError
  | IndexError
  | AttributeError
  | ZeroDivisionError
  | LLMGenerationError timeframe_violation

text \<open>
  Three library functions are not code of the repository and are taken as parameters:
  \<^verbatim>\<open>float(s)\<close> on a \<^verbatim>\<open>str\<close> (\<open>None\<close> for \<^verbatim>\<open>ValueError\<close>), the text that an
  f-string produces for a value that is not a \<^verbatim>\<open>str\<close>, and the text that
  \<^verbatim>\<open>datetime.isoformat()\<close> produces.
\<close>

record py_builtins =
  float_of_str :: "string \<Rightarrow> rat option"
  format_other :: "pyval \<Rightarrow> string"
  isoformat :: "rat \<Rightarrow> string"

text \<open>The text of a value that is a \<^verbatim>\<open>str\<close>; \<open>None\<close> for every other type.\<close>

definition str_text :: "py_builtins \<Rightarrow> pyval \<Rightarrow> string option" where
  "str_text B v = (case v of PStr s \<Rightarrow> Some s | PIso t \<Rightarrow> Some (isoformat B t) | _ \<Rightarrow> None)"

definition py_format :: "py_builtins \<Rightarrow> pyval \<Rightarrow> string" where
  "py_format B v = (case str_text B v of Some s \<Rightarrow> s | None \<Rightarrow> format_other B v)"

fun truthy :: "pyval \<Rightarrow> bool" where
  "truthy PNone = False"
| "truthy (PBool b) = b"
| "truthy (PInt n) = (n \<noteq> 0)"
| "truthy (PFloat r) = (r \<noteq> 0)"
| "truthy (PStr s) = (s \<noteq> [])"
| "truthy (PIso t) = True"
| "truthy (PList xs) = (xs \<noteq> [])"
| "truthy (PDict d) = (d \<noteq> [])"

text \<open>The numeric value of an \<^verbatim>\<open>int\<close>, \<^verbatim>\<open>float\<close> or \<^verbatim>\<open>bool\<close> (a subclass of \<^verbatim>\<open>int\<close>).\<close>

fun py_num :: "pyval \<Rightarrow> rat option" where
  "py_num (PInt n) = Some (of_int n)"
| "py_num (PFloat r) = Some r"
| "py_num (PBool b) = Some (if b then 1 else 0)"
| "py_num v = None"

text \<open>\<^verbatim>\<open>v <= 0\<close>: ordering a \<^verbatim>\<open>str\<close>, \<^verbatim>\<open>None\<close>, list or dict against an int raises.\<close>

definition py_le_zero :: "pyval \<Rightarrow> error + bool" where
  "py_le_zero v = (case py_num v of None \<Rightarrow> Inl TypeError | Some r \<Rightarrow> Inr (r \<le> 0))"

text \<open>\<^verbatim>\<open>round(x)\<close> rounds half to even; \<^verbatim>\<open>round(x, 1)\<close> does so at one decimal.\<close>

definition round_half_even :: "rat \<Rightarrow> int" where
  "round_half_even x =
     (let f = \<lfloor>x\<rfloor>; d = x - of_int f
      in if d < 1 / 2 then f else if 1 / 2 < d then f + 1 else if even f then f else f + 1)"

definition round1 :: "rat \<Rightarrow> rat" where
  "round1 x = of_int (round_half_even (x * 10)) / 10"

fun py_round1 :: "pyval \<Rightarrow> error + pyval" where
  "py_round1 (PInt n) = Inr (PInt n)"
| "py_round1 (PBool b) = Inr (PInt (if b then 1 else 0))"
| "py_round1 (PFloat r) = Inr (PFloat (round1 r))"
| "py_round1 v = Inl TypeError"

subsection \<open>Strings\<close>

text \<open>
  \<^verbatim>\<open>str.lower()\<close> on ASCII text: a letter \<^verbatim>\<open>A\<close> to \<^verbatim>\<open>Z\<close> (codes 65 to 90) gets
  32 added to its code, which sets the bit of weight 32.
\<close>

fun lower_char :: "char \<Rightarrow> char" where
  "lower_char (Char b0 b1 b2 b3 b4 b5 b6 b7) =
     (let n = (of_char (Char b0 b1 b2 b3 b4 b5 b6 b7) :: nat)
      in if 65 \<le> n \<and> n \<le> 90 then Char b0 b1 b2 b3 b4 True b6 b7
         else Char b0 b1 b2 b3 b4 b5 b6 b7)"

definition lower :: "string \<Rightarrow> string" where
  "lower s = map lower_char s"

fun starts_with :: "string \<Rightarrow> string \<Rightarrow> bool" where
  "starts_with s [] = True"
| "starts_with [] (p # ps) = False"
| "starts_with (c # cs) (p # ps) = (c = p \<and> starts_with cs ps)"

text \<open>\<open>str_contains s w\<close> is \<^verbatim>\<open>w in s\<close>.\<close>

fun str_contains :: "string \<Rightarrow> string \<Rightarrow> bool" where
  "str_contains [] w = (w = [])"
| "str_contains (c # cs) w = (starts_with (c # cs) w \<or> str_contains cs w)"

text \<open>\<open>any_in ws s\<close> is \<^verbatim>\<open>any(word in s for word in ws)\<close>.\<close>

definition any_in :: "string list \<Rightarrow> string \<Rightarrow> bool" where
  "any_in ws s = list_ex (str_contains s) ws"

definition digit_char :: "nat \<Rightarrow> char" where
  "digit_char d = ''0123456789'' ! d"

function str_nat :: "nat \<Rightarrow> string" where
  "str_nat n = (if n < 10 then [digit_char n] else str_nat (n div 10) @ [digit_char (n mod 10)])"
  by pat_completeness auto
termination
  by (relation "measure id") auto

declare str_nat.simps [simp del]

section \<open>Keyword classifiers\<close>

definition detect_task_type :: "py_builtins \<Rightarrow> pyval \<Rightarrow> pyval \<Rightarrow> string" where
  "detect_task_type B title description =
     (let combined = lower (py_format B title @ '' '' @ py_format B description)
      in if any_in [''research'', ''analyze'', ''study'', ''investigate'', ''explore'',
                    ''survey'', ''market research''] combined then ''research''
         else if any_in [''design'', ''architecture'', ''plan'', ''wireframe'', ''mockup'',
                    ''prototype'', ''blueprint''] combined then ''design''
         else if any_in [''implement'', ''build'', ''create'', ''develop'', ''code'',
                    ''program'', ''construct''] combined then ''implementation''
         else if any_in [''test'', ''testing'', ''qa'', ''quality'', ''debug'', ''verify'',
                    ''validate''] combined then ''testing''
         else if any_in [''deploy'', ''deployment'', ''release'', ''publish'', ''launch'',
                    ''production'', ''host''] combined then ''deployment''
         else if any_in [''document'', ''documentation'', ''write'', ''manual'', ''guide'',
                    ''tutorial'', ''readme''] combined then ''documentation''
         else ''implementation'')"

definition detect_complexity_level :: "py_builtins \<Rightarrow> pyval \<Rightarrow> pyval \<Rightarrow> string" where
  "detect_complexity_level B title description =
     (let combined = lower (py_format B title @ '' '' @ py_format B description)
      in if any_in [''ai'', ''machine learning'', ''blockchain'', ''distributed'',
                    ''microservices'', ''scalable'', ''enterprise'', ''security audit''] combined
         then ''expert''
         else if any_in [''api'', ''integration'', ''database'', ''authentication'', ''payment'',
                    ''third-party'', ''framework'', ''architecture'', ''system''] combined
         then ''complex''
         else if any_in [''setup'', ''configure'', ''install'', ''basic'', ''simple'', ''update'',
                    ''fix'', ''bug'', ''small''] combined
         then ''simple''
         else ''moderate'')"

section \<open>The validator: \<^verbatim>\<open>validate_and_fix_tasks\<close>\<close>

text \<open>
  The body of the first loop, one definition for each numbered fix of the source.
  \<open>i\<close> is the index that \<^verbatim>\<open>enumerate\<close> supplies.
\<close>

definition fix_title :: "nat \<Rightarrow> pydict \<Rightarrow> pydict" where
  "fix_title i task =
     (case map_of task ''title'' of
        None \<Rightarrow> AList.update ''title'' (PStr (''Task '' @ str_nat (i + 1))) task
      | Some v \<Rightarrow>
          if \<not> truthy v then AList.update ''title'' (PStr (''Task '' @ str_nat (i + 1))) task
          else task)"

definition fix_description :: "pydict \<Rightarrow> pydict" where
  "fix_description task =
     (case map_of task ''description'' of
        None \<Rightarrow> AList.update ''description'' (PStr ''No description provided'') task
      | Some v \<Rightarrow>
          if \<not> truthy v then AList.update ''description'' (PStr ''No description provided'') task
          else task)"

text \<open>
  Fixes 3, 4 and 4b. Fix 3 compares the stored value with \<^verbatim>\<open>0\<close> before fix 4 looks
  at its type, so the comparison is where a \<^verbatim>\<open>str\<close> value is met first.
\<close>

definition fix_estimated_hours :: "py_builtins \<Rightarrow> pydict \<Rightarrow> error + pydict" where
  "fix_estimated_hours B task =
     (case (case map_of task ''estimated_hours'' of
              None \<Rightarrow> Inr True
            | Some v \<Rightarrow> py_le_zero v) of
        Inl e \<Rightarrow> Inl e
      | Inr bad \<Rightarrow>
          (let t3 = (if bad then AList.update ''estimated_hours'' (PFloat 4) task else task);
               t4 = (case map_of t3 ''estimated_hours'' of
                       None \<Rightarrow> t3
                     | Some v \<Rightarrow>
                         (case str_text B v of
                            None \<Rightarrow> t3
                          | Some s \<Rightarrow>
                              (case float_of_str B s of
                                 Some r \<Rightarrow> AList.update ''estimated_hours'' (PFloat r) t3
                               | None \<Rightarrow> AList.update ''estimated_hours'' (PFloat 4) t3)))
           in case map_of t4 ''estimated_hours'' of
                None \<Rightarrow> Inl KeyError
              | Some v \<Rightarrow>
                  (case py_round1 v of
                     Inl e \<Rightarrow> Inl e
                   | Inr h \<Rightarrow> Inr (AList.update ''estimated_hours'' h t4))))"

definition fix_priority :: "pydict \<Rightarrow> pydict" where
  "fix_priority task =
     (case map_of task ''priority'' of
        None \<Rightarrow> AList.update ''priority'' (PStr ''medium'') task
      | Some v \<Rightarrow>
          if v \<notin> set [PStr ''high'', PStr ''medium'', PStr ''low'']
          then AList.update ''priority'' (PStr ''medium'') task
          else task)"

text \<open>\<^verbatim>\<open>task["title"]\<close> and \<^verbatim>\<open>task["description"]\<close>; both keys are set by fixes 1 and 2.\<close>

definition item :: "pydict \<Rightarrow> string \<Rightarrow> pyval" where
  "item task k = (case map_of task k of Some v \<Rightarrow> v | None \<Rightarrow> PNone)"

definition fix_complexity_level :: "py_builtins \<Rightarrow> pydict \<Rightarrow> pydict" where
  "fix_complexity_level B task =
     (let detected = PStr (detect_complexity_level B (item task ''title'') (item task ''description''))
      in case map_of task ''complexity_level'' of
           None \<Rightarrow> AList.update ''complexity_level'' detected task
         | Some v \<Rightarrow>
             if v \<notin> set [PStr ''simple'', PStr ''moderate'', PStr ''complex'', PStr ''expert'']
             then AList.update ''complexity_level'' detected task
             else task)"

definition fix_task_type :: "py_builtins \<Rightarrow> pydict \<Rightarrow> pydict" where
  "fix_task_type B task =
     (let detected = PStr (detect_task_type B (item task ''title'') (item task ''description''))
      in case map_of task ''task_type'' of
           None \<Rightarrow> AList.update ''task_type'' detected task
         | Some v \<Rightarrow>
             if v \<notin> set [PStr ''research'', PStr ''design'', PStr ''implementation'',
                          PStr ''testing'', PStr ''deployment'', PStr ''documentation'']
             then AList.update ''task_type'' detected task
             else task)"

text \<open>
  \<^verbatim>\<open>isinstance(dep, int) and 0 <= dep < i\<close>. A \<^verbatim>\<open>bool\<close> is an instance of
  \<^verbatim>\<open>int\<close>, with \<^verbatim>\<open>False == 0\<close> and \<^verbatim>\<open>True == 1\<close>; \<open>int_value\<close> is the integer
  that such a value denotes.
\<close>

fun int_value :: "pyval \<Rightarrow> int option" where
  "int_value (PInt n) = Some n"
| "int_value (PBool b) = Some (if b then 1 else 0)"
| "int_value v = None"

definition valid_dep :: "nat \<Rightarrow> pyval \<Rightarrow> bool" where
  "valid_dep i dep = (case int_value dep of None \<Rightarrow> False | Some n \<Rightarrow> 0 \<le> n \<and> n < int i)"

text \<open>
  The list comprehension of fix 8 iterates the stored value: a list gives its elements,
  a \<^verbatim>\<open>str\<close> its characters and a dict its keys (all of them \<^verbatim>\<open>str\<close>, hence all
  dropped), and any other value is not iterable.
\<close>

fun filter_dependencies :: "nat \<Rightarrow> pyval \<Rightarrow> error + pyval list" where
  "filter_dependencies i (PList deps) = Inr (filter (valid_dep i) deps)"
| "filter_dependencies i (PStr s) = Inr []"
| "filter_dependencies i (PIso t) = Inr []"
| "filter_dependencies i (PDict d) = Inr []"
| "filter_dependencies i v = Inl TypeError"

definition fix_dependencies :: "nat \<Rightarrow> pydict \<Rightarrow> error + pydict" where
  "fix_dependencies i task =
     (case map_of task ''dependencies'' of
        None \<Rightarrow> Inr (AList.update ''dependencies'' (PList []) task)
      | Some v \<Rightarrow>
          (case filter_dependencies i v of
             Inl e \<Rightarrow> Inl e
           | Inr deps \<Rightarrow> Inr (AList.update ''dependencies'' (PList deps) task)))"

definition fix_task :: "py_builtins \<Rightarrow> nat \<Rightarrow> pydict \<Rightarrow> error + pydict" where
  "fix_task B i task =
     (case fix_estimated_hours B (fix_description (fix_title i task)) of
        Inl e \<Rightarrow> Inl e
      | Inr t4 \<Rightarrow> fix_dependencies i (fix_task_type B (fix_complexity_level B (fix_priority t4))))"

fun fix_tasks :: "py_builtins \<Rightarrow> nat \<Rightarrow> pydict list \<Rightarrow> error + pydict list" where
  "fix_tasks B i [] = Inr []"
| "fix_tasks B i (task # tasks) =
     (case fix_task B i task of
        Inl e \<Rightarrow> Inl e
      | Inr t \<Rightarrow>
          (case fix_tasks B (Suc i) tasks of
             Inl e \<Rightarrow> Inl e
           | Inr ts \<Rightarrow> Inr (t # ts)))"

subsection \<open>The priority distribution pass\<close>

definition has_priority :: "string \<Rightarrow> pydict \<Rightarrow> bool" where
  "has_priority p task = (map_of task ''priority'' = Some (PStr p))"

definition count_priority :: "string \<Rightarrow> pydict list \<Rightarrow> nat" where
  "count_priority p tasks = length (filter (has_priority p) tasks)"

text \<open>\<^verbatim>\<open>[i for i, task in enumerate(fixed_tasks) if task["priority"] == p]\<close>\<close>

definition indices_with_priority :: "string \<Rightarrow> pydict list \<Rightarrow> nat list" where
  "indices_with_priority p tasks = filter (\<lambda>i. has_priority p (tasks ! i)) [0..<length tasks]"

definition set_priority :: "string \<Rightarrow> pydict \<Rightarrow> pydict" where
  "set_priority p task = AList.update ''priority'' (PStr p) task"

text \<open>\<^verbatim>\<open>for i in high_tasks[3:]: fixed_tasks[i]["priority"] = "medium"\<close>\<close>

definition demote_high :: "pydict list \<Rightarrow> pydict list" where
  "demote_high fixed =
     foldl (\<lambda>acc i. acc[i := set_priority ''medium'' (acc ! i)]) fixed
       (drop 3 (indices_with_priority ''high'' fixed))"

text \<open>\<^verbatim>\<open>v.lower()\<close>: only a \<^verbatim>\<open>str\<close> has the method.\<close>

definition py_lower :: "py_builtins \<Rightarrow> pyval \<Rightarrow> error + string" where
  "py_lower B v = (case str_text B v of Some s \<Rightarrow> Inr (lower s) | None \<Rightarrow> Inl AttributeError)"

definition title_has_keyword :: "py_builtins \<Rightarrow> pydict \<Rightarrow> error + bool" where
  "title_has_keyword B task =
     (case map_of task ''title'' of
        None \<Rightarrow> Inl KeyError
      | Some v \<Rightarrow>
          (case py_lower B v of
             Inl e \<Rightarrow> Inl e
           | Inr s \<Rightarrow> Inr (any_in [''test'', ''document'', ''polish'', ''optimize'', ''cleanup''] s)))"

fun demote_medium_at :: "py_builtins \<Rightarrow> nat list \<Rightarrow> pydict list \<Rightarrow> error + pydict list" where
  "demote_medium_at B [] fixed = Inr fixed"
| "demote_medium_at B (i # is) fixed =
     (case title_has_keyword B (fixed ! i) of
        Inl e \<Rightarrow> Inl e
      | Inr kw \<Rightarrow>
          demote_medium_at B is
            (if kw then fixed[i := set_priority ''low'' (fixed ! i)] else fixed))"

text \<open>\<^verbatim>\<open>for i in medium_tasks[-2:]: ...\<close>\<close>

definition demote_medium :: "py_builtins \<Rightarrow> pydict list \<Rightarrow> error + pydict list" where
  "demote_medium B fixed =
     (let medium_tasks = indices_with_priority ''medium'' fixed
      in demote_medium_at B (drop (length medium_tasks - 2) medium_tasks) fixed)"

definition valid_priority :: "pydict \<Rightarrow> bool" where
  "valid_priority task =
     (has_priority ''high'' task \<or> has_priority ''medium'' task \<or> has_priority ''low'' task)"

text \<open>
  The counting loop indexes \<^verbatim>\<open>priority_counts\<close> by each task's priority, which raises
  \<^verbatim>\<open>KeyError\<close> for any other value. The percentages are computed once, before either
  adjustment.
\<close>

definition priority_distribution :: "py_builtins \<Rightarrow> pydict list \<Rightarrow> error + pydict list" where
  "priority_distribution B fixed =
     (if \<not> list_all valid_priority fixed then Inl KeyError
      else
        let total_tasks = length fixed
        in if total_tasks > 0 then
             (let high_percentage =
                    (rat_of_nat (count_priority ''high'' fixed) / rat_of_nat total_tasks) * 100;
                  low_percentage =
                    (rat_of_nat (count_priority ''low'' fixed) / rat_of_nat total_tasks) * 100;
                  fixed1 = (if high_percentage > 40 then demote_high fixed else fixed)
              in if low_percentage < 10 then demote_medium B fixed1 else Inr fixed1)
           else Inr fixed)"

definition validate_and_fix_tasks :: "py_builtins \<Rightarrow> pydict list \<Rightarrow> error + pydict list" where
  "validate_and_fix_tasks B tasks =
     (case fix_tasks B 0 tasks of
        Inl e \<Rightarrow> Inl e
      | Inr fixed \<Rightarrow> priority_distribution B fixed)"

section \<open>Effort re-estimation: \<^verbatim>\<open>apply_practical_time_adjustments\<close>\<close>

definition ebind :: "error + 'a \<Rightarrow> ('a \<Rightarrow> error + 'b) \<Rightarrow> error + 'b" where
  "ebind m f = (case m of Inl e \<Rightarrow> Inl e | Inr x \<Rightarrow> f x)"

text \<open>A value used as a number in arithmetic: anything but int, float and bool raises.\<close>

definition as_number :: "pyval \<Rightarrow> error + rat" where
  "as_number v = (case py_num v of None \<Rightarrow> Inl TypeError | Some r \<Rightarrow> Inr r)"

text \<open>
  \<^verbatim>\<open>table.get(key, default)\<close> on a dict with \<^verbatim>\<open>str\<close> keys: a list or a dict as key is
  unhashable, any other key that is not in the table gives the default.
\<close>

definition table_get :: "py_builtins \<Rightarrow> (string \<times> rat) list \<Rightarrow> pyval \<Rightarrow> rat \<Rightarrow> error + rat" where
  "table_get B table key dflt =
     (case key of
        PList xs \<Rightarrow> Inl TypeError
      | PDict d \<Rightarrow> Inl TypeError
      | _ \<Rightarrow>
          (case str_text B key of
             None \<Rightarrow> Inr dflt
           | Some s \<Rightarrow> (case map_of table s of None \<Rightarrow> Inr dflt | Some m \<Rightarrow> Inr m)))"

definition get_task_type_overhead :: "py_builtins \<Rightarrow> pyval \<Rightarrow> string \<Rightarrow> error + rat" where
  "get_task_type_overhead B task_type combined_text =
     ebind (table_get B [(''research'', 1 / 2), (''design'', 1), (''implementation'', 2),
                         (''testing'', 1 / 2), (''deployment'', 1), (''documentation'', 1 / 5)]
              task_type 1)
       (\<lambda>base_overhead.
          Inr (base_overhead
               + (if any_in [''api'', ''integration'', ''database''] combined_text then 1 else 0)
               + (if any_in [''deploy'', ''production'', ''release''] combined_text then 3 / 2 else 0)
               + (if any_in [''implement'', ''build'', ''create''] combined_text then 1 / 2 else 0)))"

definition get_technical_stack_familiarity_multiplier :: "py_builtins \<Rightarrow> pyval \<Rightarrow> error + rat" where
  "get_technical_stack_familiarity_multiplier B technical_stack =
     (if \<not> truthy technical_stack then Inr 1
      else
        ebind (py_lower B technical_stack)
          (\<lambda>stack_lower.
             let has_familiar = any_in [''javascript'', ''python'', ''react'', ''node'', ''html'',
                                        ''css'', ''sql'', ''git''] stack_lower;
                 has_learning = any_in [''rust'', ''go'', ''kubernetes'', ''docker'',
                                        ''microservices'', ''ai'', ''machine learning'',
                                        ''blockchain''] stack_lower
             in if has_learning \<and> \<not> has_familiar then Inr (13 / 10)
                else if has_learning \<and> has_familiar then Inr (11 / 10)
                else if has_familiar then Inr (19 / 20)
                else Inr 1))"

text \<open>\<^verbatim>\<open>min(increments, key=...)\<close> keeps the first of several equally close increments.\<close>

fun closest_to :: "rat \<Rightarrow> rat \<Rightarrow> rat list \<Rightarrow> rat" where
  "closest_to hours best [] = best"
| "closest_to hours best (x # xs) =
     closest_to hours (if \<bar>x - hours\<bar> < \<bar>best - hours\<bar> then x else best) xs"

definition round_to_practical_increment :: "rat \<Rightarrow> rat" where
  "round_to_practical_increment hours =
     (let closest = closest_to hours (1 / 2) [1, 3 / 2, 2, 5 / 2, 3, 4, 6, 8, 12, 16, 24]
      in if \<bar>hours - closest\<bar> < 1 / 4 then closest
         else rat_of_int (round_half_even (hours * 2)) / 2)"

text \<open>\<^verbatim>\<open>d.get(k, default)\<close>\<close>

definition get_or :: "pydict \<Rightarrow> string \<Rightarrow> pyval \<Rightarrow> pyval" where
  "get_or d k dflt = (case map_of d k of None \<Rightarrow> dflt | Some v \<Rightarrow> v)"

text \<open>The prologue: the three factors that \<^verbatim>\<open>constraints\<close> determine for all tasks.\<close>

record adjustment_factors =
  exp_multiplier :: rat
  team_size :: rat
  coordination_overhead :: rat
  stack_familiarity_multiplier :: rat

definition constraint_factors :: "py_builtins \<Rightarrow> pydict option \<Rightarrow> error + adjustment_factors" where
  "constraint_factors B constraints =
     (let c = (case constraints of None \<Rightarrow> [] | Some d \<Rightarrow> d)
      in ebind (py_lower B (get_or c ''experience_level'' (PStr ''intermediate'')))
           (\<lambda>level.
              let exp_mult = (case map_of [(''beginner'', 3 / 2), (''intermediate'', 1),
                                           (''advanced'', 4 / 5)] level of
                                None \<Rightarrow> 1 | Some m \<Rightarrow> m)
              in ebind (as_number (get_or c ''team_size'' (PInt 1)))
                   (\<lambda>size.
                      ebind (get_technical_stack_familiarity_multiplier B
                               (get_or c ''technical_stack'' (PStr [])))
                        (\<lambda>stack.
                           Inr \<lparr>exp_multiplier = exp_mult, team_size = size,
                                coordination_overhead = (1 / 20) * max 0 (size - 1),
                                stack_familiarity_multiplier = stack\<rparr>))))"

text \<open>The body of the loop over the tasks.\<close>

definition adjust_task :: "py_builtins \<Rightarrow> adjustment_factors \<Rightarrow> pydict \<Rightarrow> error + pydict" where
  "adjust_task B F task =
     ebind (py_lower B (get_or task ''title'' (PStr [])))
       (\<lambda>title.
     ebind (py_lower B (get_or task ''description'' (PStr [])))
       (\<lambda>description.
     let combined_text = title @ '' '' @ description;
         t1 = (if \<not> truthy (get_or task ''task_type'' PNone)
               then AList.update ''task_type''
                      (PStr (detect_task_type B (PStr title) (PStr description))) task
               else task);
         t2 = (if \<not> truthy (get_or t1 ''complexity_level'' PNone)
               then AList.update ''complexity_level''
                      (PStr (detect_complexity_level B (PStr title) (PStr description))) t1
               else t1);
         original_hours = get_or t2 ''estimated_hours'' (PFloat 4);
         t3 = AList.update ''base_hours'' original_hours t2
     in
     ebind (table_get B [(''simple'', 1), (''moderate'', 3 / 2), (''complex'', 5 / 2),
                         (''expert'', 4)] (item t3 ''complexity_level'') (3 / 2))
       (\<lambda>complexity_mult.
     ebind (as_number original_hours)
       (\<lambda>hours.
     ebind (get_task_type_overhead B (item t3 ''task_type'') combined_text)
       (\<lambda>task_type_overhead.
     let a1 = hours * complexity_mult * exp_multiplier F * stack_familiarity_multiplier F
              + task_type_overhead;
         o1 = [(''complexity_multiplier'', PFloat complexity_mult),
               (''experience_multiplier'', PFloat (exp_multiplier F)),
               (''technical_stack_multiplier'', PFloat (stack_familiarity_multiplier F)),
               (''task_type_overhead'', PFloat task_type_overhead)];
         has_deps = truthy (get_or t3 ''dependencies'' PNone);
         dep_overhead = a1 * (3 / 20);
         a2 = (if has_deps then a1 + dep_overhead else a1);
         o2 = (if has_deps then o1 @ [(''dependency_overhead'', PFloat dep_overhead)] else o1);
         coord_overhead = a2 * coordination_overhead F;
         a3 = (if team_size F > 1 then a2 + coord_overhead else a2);
         o3 = (if team_size F > 1 then o2 @ [(''coordination_overhead'', PFloat coord_overhead)]
               else o2);
         adjusted_hours = round_to_practical_increment a3
     in Inr (AList.update ''overhead_factors'' (PDict o3)
               (AList.update ''estimated_hours'' (PFloat adjusted_hours) t3)))))))"

fun adjust_tasks :: "py_builtins \<Rightarrow> adjustment_factors \<Rightarrow> pydict list \<Rightarrow> error + pydict list" where
  "adjust_tasks B F [] = Inr []"
| "adjust_tasks B F (task # tasks) =
     ebind (adjust_task B F task)
       (\<lambda>t. ebind (adjust_tasks B F tasks) (\<lambda>ts. Inr (t # ts)))"

definition apply_practical_time_adjustments ::
  "py_builtins \<Rightarrow> pydict list \<Rightarrow> pydict option \<Rightarrow> error + pydict list" where
  "apply_practical_time_adjustments B tasks constraints =
     (if tasks = [] then Inr tasks
      else ebind (constraint_factors B constraints) (\<lambda>F. adjust_tasks B F tasks))"

section \<open>Timeframes: \<^verbatim>\<open>parse_timeframe_to_days\<close> and \<^verbatim>\<open>validate_timeframe_compliance\<close>\<close>

text \<open>ASCII white space, as \<^verbatim>\<open>str.strip()\<close> and \<^verbatim>\<open>str.split()\<close> see it.\<close>

definition is_space :: "char \<Rightarrow> bool" where
  "is_space c = (let n = (of_char c :: nat) in (9 \<le> n \<and> n \<le> 13) \<or> (28 \<le> n \<and> n \<le> 32))"

definition strip :: "string \<Rightarrow> string" where
  "strip s = rev (dropWhile is_space (rev (dropWhile is_space s)))"

text \<open>\<^verbatim>\<open>s.split()[0]\<close>; the empty result stands for \<^verbatim>\<open>IndexError\<close>.\<close>

definition first_token :: "string \<Rightarrow> string" where
  "first_token s = takeWhile (\<lambda>c. \<not> is_space c) (dropWhile is_space s)"

definition is_digit :: "char \<Rightarrow> bool" where
  "is_digit c = (let n = (of_char c :: nat) in 48 \<le> n \<and> n \<le> 57)"

definition digits_value :: "string \<Rightarrow> nat" where
  "digits_value s = foldl (\<lambda>acc c. 10 * acc + (of_char c - 48)) 0 s"

text \<open>
  \<^verbatim>\<open>int(s)\<close> on a token without white space: an optional sign, then decimal digits, where
  single underscores may separate digits. \<open>None\<close> stands for \<^verbatim>\<open>ValueError\<close>.
\<close>

fun digit_groups :: "string \<Rightarrow> bool" where
  "digit_groups [] = False"
| "digit_groups [c] = is_digit c"
| "digit_groups (c # d # cs) =
     (is_digit c \<and> (if d = CHR ''_'' then digit_groups cs else digit_groups (d # cs)))"

definition py_int :: "string \<Rightarrow> int option" where
  "py_int s =
     (let neg = (s \<noteq> [] \<and> hd s = CHR ''-'');
          body = (if s \<noteq> [] \<and> (hd s = CHR ''-'' \<or> hd s = CHR ''+'') then tl s else s)
      in if digit_groups body
         then (let n = int (digits_value (filter is_digit body)) in Some (if neg then - n else n))
         else None)"

text \<open>\<^verbatim>\<open>re.findall(r'\d+', s)[0]\<close>; empty when there is no digit.\<close>

definition first_digit_run :: "string \<Rightarrow> string" where
  "first_digit_run s = takeWhile is_digit (dropWhile (\<lambda>c. \<not> is_digit c) s)"

definition parse_timeframe_to_days :: "string option \<Rightarrow> int" where
  "parse_timeframe_to_days timeframe =
     (case timeframe of
        None \<Rightarrow> 7
      | Some tf0 \<Rightarrow>
          if tf0 = [] then 7
          else
            (let tf = strip (lower tf0)
             in if str_contains tf ''year'' then
                  (case py_int (first_token tf) of Some years \<Rightarrow> years * 365 | None \<Rightarrow> 365)
                else if str_contains tf ''month'' then
                  (case py_int (first_token tf) of Some months \<Rightarrow> months * 30 | None \<Rightarrow> 30)
                else if str_contains tf ''week'' then
                  (case py_int (first_token tf) of Some weeks \<Rightarrow> weeks * 7 | None \<Rightarrow> 7)
                else if str_contains tf ''day'' then
                  (case py_int (first_token tf) of Some days \<Rightarrow> days | None \<Rightarrow> 7)
                else
                  (let numbers = first_digit_run tf
                   in if numbers \<noteq> [] then
                        (let num = int (digits_value numbers)
                         in if num \<le> 31 then num else if num \<le> 52 then num * 7 else num)
                      else 7)))"

text \<open>\<^verbatim>\<open>sum(task.get("estimated_hours", 0) for task in tasks)\<close>\<close>

fun sum_estimated_hours :: "pydict list \<Rightarrow> error + rat" where
  "sum_estimated_hours [] = Inr 0"
| "sum_estimated_hours (task # tasks) =
     ebind (as_number (get_or task ''estimated_hours'' (PInt 0)))
       (\<lambda>h. ebind (sum_estimated_hours tasks) (\<lambda>rest. Inr (h + rest)))"

text \<open>\<^verbatim>\<open>if timeframe\<close>: neither \<^verbatim>\<open>None\<close> nor the empty string.\<close>

definition timeframe_given :: "string option \<Rightarrow> bool" where
  "timeframe_given timeframe = (case timeframe of None \<Rightarrow> False | Some tf \<Rightarrow> tf \<noteq> [])"

definition validate_timeframe_compliance :: "pydict list \<Rightarrow> string option \<Rightarrow> error + bool" where
  "validate_timeframe_compliance tasks timeframe =
     (if \<not> timeframe_given timeframe \<or> tasks = [] then Inr True
      else
        (let timeframe_days = parse_timeframe_to_days timeframe;
             available_hours = rat_of_int (timeframe_days * 8)
         in ebind (sum_estimated_hours tasks)
              (\<lambda>total_estimated_hours.
                 let max_allowed_hours = available_hours * (6 / 5);
                     min_allowed_hours = available_hours * (4 / 5);
                     tolerance = 1 / 100
                 in Inr (min_allowed_hours - tolerance \<le> total_estimated_hours
                         \<and> total_estimated_hours \<le> max_allowed_hours + tolerance))))"

section \<open>The working calendar: \<^verbatim>\<open>calculate_task_end_with_working_hours\<close>\<close>

text \<open>
  A naive \<^verbatim>\<open>datetime\<close> is the number of hours since a Monday 00:00, so
  \<^verbatim>\<open>weekday()\<close> is the day number modulo 7 with Monday 0, Saturday 5 and Sunday 6.
\<close>

definition day_of :: "rat \<Rightarrow> int" where
  "day_of t = \<lfloor>t / 24\<rfloor>"

definition weekday :: "rat \<Rightarrow> int" where
  "weekday t = day_of t mod 7"

definition hour_of_day :: "rat \<Rightarrow> rat" where
  "hour_of_day t = t - 24 * rat_of_int (day_of t)"

text \<open>\<^verbatim>\<open>d.replace(hour=9, minute=0, second=0, microsecond=0)\<close>\<close>

definition at_nine :: "rat \<Rightarrow> rat" where
  "at_nine t = 24 * rat_of_int (day_of t) + 9"

text \<open>The \<^verbatim>\<open>while d.weekday() >= 5\<close> loop of \<^verbatim>\<open>to_next_workday_morning\<close>.\<close>

function skip_weekend :: "rat \<Rightarrow> rat" where
  "skip_weekend d = (if weekday d \<ge> 5 then skip_weekend (at_nine (d + 24)) else d)"
  by pat_completeness auto
termination
proof (relation "measure (\<lambda>d. nat (if weekday d \<ge> 5 then 7 - weekday d else 0))")
  show "wf (measure (\<lambda>d. nat (if weekday d \<ge> 5 then 7 - weekday d else 0)))"
    by simp
next
  fix d :: rat
  assume w: "5 \<le> weekday d"
  have d1: "day_of (d + 24) = day_of d + 1"
  proof -
    have "(d + 24) / 24 = d / 24 + rat_of_int 1" by simp
    then show ?thesis unfolding day_of_def by (metis floor_add_int)
  qed
  have d2: "day_of (at_nine (d + 24)) = day_of (d + 24)"
    unfolding at_nine_def day_of_def by (simp add: add_divide_distrib floor_eq_iff)
  have lt: "weekday d < 7" unfolding weekday_def by simp
  have nxt: "weekday (at_nine (d + 24)) = (weekday d + 1) mod 7"
    unfolding weekday_def d2 d1 by (simp add: mod_add_left_eq)
  from w lt have "weekday d = 5 \<or> weekday d = 6" by arith
  then show "(at_nine (d + 24), d) \<in> measure (\<lambda>d. nat (if weekday d \<ge> 5 then 7 - weekday d else 0))"
    using nxt by auto
qed

declare skip_weekend.simps [simp del]

definition to_next_workday_morning :: "rat \<Rightarrow> rat" where
  "to_next_workday_morning dt = skip_weekend (at_nine dt)"

text \<open>
  The \<^verbatim>\<open>while remaining_hours > 0\<close> loop on the pair (current time, remaining hours).
\<close>

function work_loop :: "rat \<Rightarrow> rat \<Rightarrow> rat" where
  "work_loop current_time remaining_hours =
     (if remaining_hours > 0 then
        (if weekday current_time \<ge> 5
         then work_loop (to_next_workday_morning (current_time + 24)) remaining_hours
         else
           (let work_today = min remaining_hours 8;
                current1 = current_time + work_today;
                remaining1 = remaining_hours - work_today
            in if remaining1 > 0
               then work_loop (to_next_workday_morning (current1 + 24)) remaining1
               else current1))
      else current_time)"
  by pat_completeness auto

termination
proof -
  have sw: "weekday (skip_weekend d) < 5" for d
  proof (induction d rule: skip_weekend.induct)
    case (1 d)
    show ?case
    proof (cases "5 \<le> weekday d")
      case True
      then show ?thesis using 1 by (subst skip_weekend.simps) simp
    next
      case False
      then show ?thesis by (subst skip_weekend.simps) simp
    qed
  qed
  show ?thesis
  proof (relation "measure (\<lambda>(c, r). 2 * nat \<lceil>r / 8\<rceil> + (if weekday c \<ge> 5 then 1 else 0))")
    show "wf (measure (\<lambda>(c, r). 2 * nat \<lceil>r / 8\<rceil> + (if weekday c \<ge> 5 then 1 else 0)))"
      by simp
  next
    fix c r :: rat
    assume "0 < r" "5 \<le> weekday c"
    have "weekday (to_next_workday_morning (c + 24)) < 5"
      unfolding to_next_workday_morning_def by (rule sw)
    then show "((to_next_workday_morning (c + 24), r), (c, r))
        \<in> measure (\<lambda>(c, r). 2 * nat \<lceil>r / 8\<rceil> + (if weekday c \<ge> 5 then 1 else 0))"
      using \<open>5 \<le> weekday c\<close> by simp
  next
    fix c r w c1 r1 :: rat
    assume a: "0 < r" "\<not> 5 \<le> weekday c" "w = min r 8" "c1 = c + w" "r1 = r - w" "0 < r1"
    then have r8: "r > 8" "r1 = r - 8" by (auto simp: min_def split: if_splits)
    have "r1 / 8 = r / 8 - rat_of_int 1" using r8 by simp
    then have ce: "\<lceil>r1 / 8\<rceil> = \<lceil>r / 8\<rceil> - 1" by (metis ceiling_diff_of_int)
    have pos: "\<lceil>r / 8\<rceil> \<ge> 2" using r8 by (simp add: le_ceiling_iff)
    have dec: "2 * nat \<lceil>r1 / 8\<rceil> < 2 * nat \<lceil>r / 8\<rceil>" using ce pos by linarith
    have "weekday (to_next_workday_morning (c1 + 24)) < 5"
      unfolding to_next_workday_morning_def by (rule sw)
    then show "((to_next_workday_morning (c1 + 24), r1), (c, r))
        \<in> measure (\<lambda>(c, r). 2 * nat \<lceil>r / 8\<rceil> + (if weekday c \<ge> 5 then 1 else 0))"
      using dec a(2) by simp
  qed
qed

declare work_loop.simps [simp del]

definition calculate_task_end_with_working_hours :: "rat \<Rightarrow> rat \<Rightarrow> rat" where
  "calculate_task_end_with_working_hours start_time hours =
     work_loop (to_next_workday_morning start_time) hours"

section \<open>The task splitter: \<^verbatim>\<open>split_long_tasks\<close>\<close>

text \<open>\<^verbatim>\<open>float(v)\<close>\<close>

definition py_float :: "py_builtins \<Rightarrow> pyval \<Rightarrow> error + rat" where
  "py_float B v =
     (case py_num v of
        Some r \<Rightarrow> Inr r
      | None \<Rightarrow>
          (case str_text B v of
             None \<Rightarrow> Inl TypeError
           | Some s \<Rightarrow> (case float_of_str B s of None \<Rightarrow> Inl ValueError | Some r \<Rightarrow> Inr r)))"

text \<open>
  \<^verbatim>\<open>deps = task.get("dependencies") or []\<close>, then \<^verbatim>\<open>for d in deps\<close>: a falsy value
  gives the empty list; the characters of a \<^verbatim>\<open>str\<close> and the keys of a dict are no
  integers, so such a value contributes nothing; a number is not iterable.
\<close>

definition deps_to_iterate :: "pydict \<Rightarrow> error + pyval list" where
  "deps_to_iterate task =
     (let v = get_or task ''dependencies'' PNone
      in if \<not> truthy v then Inr []
         else (case v of
                 PList ds \<Rightarrow> Inr ds
               | PStr s \<Rightarrow> Inr []
               | PIso t \<Rightarrow> Inr []
               | PDict d \<Rightarrow> Inr []
               | _ \<Rightarrow> Inl TypeError))"

text \<open>
  \<^verbatim>\<open>if isinstance(d, int) and d in original_last_part_index:
        remapped_deps.append(original_last_part_index[d])\<close>
\<close>

fun remap_deps :: "(int \<rightharpoonup> nat) \<Rightarrow> pyval list \<Rightarrow> nat list" where
  "remap_deps olpi [] = []"
| "remap_deps olpi (d # ds) =
     (case int_value d of
        None \<Rightarrow> remap_deps olpi ds
      | Some n \<Rightarrow>
          (case olpi n of
             None \<Rightarrow> remap_deps olpi ds
           | Some j \<Rightarrow> j # remap_deps olpi ds))"

definition index_list :: "nat list \<Rightarrow> pyval" where
  "index_list js = PList (map (\<lambda>j. PInt (int j)) js)"

text \<open>The list \<^verbatim>\<open>parts\<close> of a task above the threshold.\<close>

definition split_parts :: "rat \<Rightarrow> rat \<Rightarrow> error + rat list" where
  "split_parts hours chunk_hours =
     (if chunk_hours = 0 then Inl ZeroDivisionError
      else
        (let full_chunks = \<lfloor>hours / chunk_hours\<rfloor>;
             remainder = hours - rat_of_int full_chunks * chunk_hours;
             parts = replicate (nat full_chunks) chunk_hours
                     @ (if remainder > 0 then [remainder] else [])
         in Inr (if parts = [] then [hours] else parts)))"

text \<open>
  The inner loop over \<^verbatim>\<open>parts\<close>. \<open>pos\<close> is \<^verbatim>\<open>len(new_tasks)\<close> when the part is
  appended, so that \<^verbatim>\<open>prev_index_for_chain\<close> is \<open>pos - 1\<close> from the second part on.
\<close>

fun make_parts ::
  "pydict \<Rightarrow> string \<Rightarrow> nat \<Rightarrow> nat list \<Rightarrow> nat \<Rightarrow> nat \<Rightarrow> rat list \<Rightarrow> pydict list" where
  "make_parts task base_title total_parts first_part_deps part_idx pos [] = []"
| "make_parts task base_title total_parts first_part_deps part_idx pos (part_hours # rest) =
     AList.update ''dependencies''
       (if part_idx = 1 then index_list first_part_deps else index_list [pos - 1])
       (AList.update ''estimated_hours'' (PFloat (round1 (max 1 part_hours)))
          (AList.update ''title''
             (PStr (base_title @ '' (Part '' @ str_nat part_idx @ '' of '' @ str_nat total_parts
                    @ '')''))
             task))
     # make_parts task base_title total_parts first_part_deps (Suc part_idx) (Suc pos) rest"

text \<open>
  One round of the loop over the input tasks: the tasks it appends to \<^verbatim>\<open>new_tasks\<close>,
  whose length before the round is \<open>pos\<close>.
\<close>

text \<open>
  \<^verbatim>\<open>hours = float(task.get("estimated_hours", 0) or 0)\<close> followed by
  \<^verbatim>\<open>hours = max(1.0, hours)\<close>.
\<close>

definition effective_hours :: "py_builtins \<Rightarrow> pydict \<Rightarrow> error + rat" where
  "effective_hours B task =
     (let v = get_or task ''estimated_hours'' (PInt 0)
      in ebind (py_float B (if truthy v then v else PInt 0)) (\<lambda>hours. Inr (max 1 hours)))"

definition split_task ::
  "py_builtins \<Rightarrow> rat \<Rightarrow> rat \<Rightarrow> (int \<rightharpoonup> nat) \<Rightarrow> nat \<Rightarrow> pydict \<Rightarrow> error + pydict list" where
  "split_task B threshold_hours chunk_hours olpi pos task =
     ebind (effective_hours B task)
       (\<lambda>hours.
          if hours \<le> threshold_hours then
            ebind (deps_to_iterate task)
              (\<lambda>deps.
                 Inr [AList.update ''estimated_hours'' (PFloat (round1 hours))
                        (AList.update ''dependencies'' (index_list (remap_deps olpi deps))
                           task)])
          else
            ebind (split_parts hours chunk_hours)
              (\<lambda>parts.
                 ebind (deps_to_iterate task)
                   (\<lambda>deps.
                      Inr (make_parts task (py_format B (get_or task ''title'' (PStr ''Task'')))
                             (length parts) (remap_deps olpi deps) 1 pos parts))))"

text \<open>
  The outer loop, on the state (\<^verbatim>\<open>new_tasks\<close>, \<^verbatim>\<open>original_last_part_index\<close>); every
  round ends by recording \<^verbatim>\<open>len(new_tasks) - 1\<close> for the original index.
\<close>

fun split_loop ::
  "py_builtins \<Rightarrow> rat \<Rightarrow> rat \<Rightarrow> nat \<Rightarrow> pydict list \<Rightarrow> (int \<rightharpoonup> nat) \<Rightarrow> pydict list
   \<Rightarrow> error + (pydict list \<times> (int \<rightharpoonup> nat))" where
  "split_loop B threshold_hours chunk_hours original_idx new_tasks olpi [] = Inr (new_tasks, olpi)"
| "split_loop B threshold_hours chunk_hours original_idx new_tasks olpi (task # tasks) =
     ebind (split_task B threshold_hours chunk_hours olpi (length new_tasks) task)
       (\<lambda>added.
          split_loop B threshold_hours chunk_hours (Suc original_idx) (new_tasks @ added)
            (olpi(int original_idx \<mapsto> length (new_tasks @ added) - 1)) tasks)"

text \<open>\<^verbatim>\<open>for i, t in enumerate(new_tasks): t["id"] = i\<close>\<close>

fun assign_ids :: "nat \<Rightarrow> pydict list \<Rightarrow> pydict list" where
  "assign_ids i [] = []"
| "assign_ids i (t # ts) = AList.update ''id'' (PInt (int i)) t # assign_ids (Suc i) ts"

definition split_long_tasks ::
  "py_builtins \<Rightarrow> pydict list \<Rightarrow> rat \<Rightarrow> rat \<Rightarrow> error + pydict list" where
  "split_long_tasks B tasks threshold_hours chunk_hours =
     (if tasks = [] then Inr []
      else ebind (split_loop B threshold_hours chunk_hours 0 [] Map.empty tasks)
             (\<lambda>(new_tasks, olpi). Inr (assign_ids 0 new_tasks)))"

section \<open>The scheduler: \<^verbatim>\<open>calculate_deadlines\<close>\<close>

text \<open>\<^verbatim>\<open>task_end_times[n]\<close>, where a negative index counts from the end.\<close>

definition index_end :: "rat list \<Rightarrow> int \<Rightarrow> error + rat" where
  "index_end ends n =
     (let len = int (length ends); j = (if n < 0 then len + n else n)
      in if 0 \<le> j \<and> j < len then Inr (ends ! nat j) else Inl IndexError)"

text \<open>
  \<^verbatim>\<open>[task_end_times[dep] for dep in task["dependencies"] if dep < i]\<close>: the comparison
  needs a number, the subscript an integer.
\<close>

fun collect_dep_end_times :: "nat \<Rightarrow> rat list \<Rightarrow> pyval list \<Rightarrow> error + rat list" where
  "collect_dep_end_times i ends [] = Inr []"
| "collect_dep_end_times i ends (dep # deps) =
     (case py_num dep of
        None \<Rightarrow> Inl TypeError
      | Some r \<Rightarrow>
          if r < rat_of_nat i then
            (case int_value dep of
               None \<Rightarrow> Inl TypeError
             | Some n \<Rightarrow>
                 ebind (index_end ends n)
                   (\<lambda>e. ebind (collect_dep_end_times i ends deps) (\<lambda>rest. Inr (e # rest))))
          else collect_dep_end_times i ends deps)"

text \<open>
  The comprehension on a truthy value that is no list fails: a number is not iterable,
  and the first character of a \<^verbatim>\<open>str\<close> or key of a dict cannot be compared with \<open>i\<close>.
\<close>

definition dep_end_times :: "nat \<Rightarrow> rat list \<Rightarrow> pyval \<Rightarrow> error + rat list" where
  "dep_end_times i ends v =
     (case v of PList deps \<Rightarrow> collect_dep_end_times i ends deps | _ \<Rightarrow> Inl TypeError)"

text \<open>\<^verbatim>\<open>max(xs)\<close> of a list that is not empty.\<close>

fun max_list :: "rat list \<Rightarrow> rat" where
  "max_list [] = 0"
| "max_list [x] = x"
| "max_list (x # y # ys) = max x (max_list (y # ys))"

text \<open>
  Step 3a of the first loop. \<^verbatim>\<open>last_end_time\<close> is \<^verbatim>\<open>None\<close> before the first task
  and the last element of \<^verbatim>\<open>task_end_times\<close> afterwards.
\<close>

definition first_task_start_time :: "rat \<Rightarrow> nat \<Rightarrow> rat list \<Rightarrow> pydict \<Rightarrow> error + rat" where
  "first_task_start_time current_date i ends task =
     (let deps = get_or task ''dependencies'' PNone
      in if truthy deps then
           ebind (dep_end_times i ends deps)
             (\<lambda>dts.
                if dts \<noteq> [] then
                  (let dep_gate = max_list dts
                   in if ends \<noteq> [] then Inr (max dep_gate (last ends)) else Inr dep_gate)
                else Inr current_date)
         else Inr (if ends \<noteq> [] then last ends else current_date))"

text \<open>The start time in the two recomputation loops, which are the same text.\<close>

definition recomputed_start_time :: "rat \<Rightarrow> nat \<Rightarrow> rat list \<Rightarrow> pydict \<Rightarrow> error + rat" where
  "recomputed_start_time current_date i ends task =
     (let deps = get_or task ''dependencies'' PNone
      in if truthy deps \<and> ends \<noteq> [] then
           ebind (dep_end_times i ends deps)
             (\<lambda>dts.
                if dts \<noteq> [] then Inr (max (max_list dts) (last ends))
                else Inr current_date)
         else Inr (if ends \<noteq> [] then last ends else current_date))"

text \<open>\<^verbatim>\<open>calculate_task_end_with_working_hours(task_start, task["estimated_hours"])\<close>\<close>

definition task_end_time :: "py_builtins \<Rightarrow> rat \<Rightarrow> pydict \<Rightarrow> error + rat" where
  "task_end_time B task_start task =
     (case map_of task ''estimated_hours'' of
        None \<Rightarrow> Inl KeyError
      | Some h \<Rightarrow>
          ebind (py_float B h) (\<lambda>hours. Inr (calculate_task_end_with_working_hours task_start hours)))"

fun schedule_loop ::
  "py_builtins \<Rightarrow> rat \<Rightarrow> nat \<Rightarrow> rat list \<Rightarrow> pydict list \<Rightarrow> error + pydict list" where
  "schedule_loop B current_date i ends [] = Inr []"
| "schedule_loop B current_date i ends (task # tasks) =
     ebind (first_task_start_time current_date i ends task)
       (\<lambda>task_start.
          ebind (task_end_time B task_start task)
            (\<lambda>task_end.
               ebind (schedule_loop B current_date (Suc i) (ends @ [task_end]) tasks)
                 (\<lambda>rest.
                    Inr (AList.update ''start_time'' (PIso task_start)
                           (AList.update ''deadline'' (PIso task_end)
                              (AList.update ''id'' (PInt (int i)) task))
                         # rest))))"

fun recompute_loop ::
  "py_builtins \<Rightarrow> rat \<Rightarrow> nat \<Rightarrow> rat list \<Rightarrow> pydict list \<Rightarrow> error + pydict list" where
  "recompute_loop B current_date i ends [] = Inr []"
| "recompute_loop B current_date i ends (task # tasks) =
     ebind (recomputed_start_time current_date i ends task)
       (\<lambda>task_start.
          ebind (task_end_time B task_start task)
            (\<lambda>task_end.
               ebind (recompute_loop B current_date (Suc i) (ends @ [task_end]) tasks)
                 (\<lambda>rest.
                    Inr (AList.update ''deadline'' (PIso task_end)
                           (AList.update ''start_time'' (PIso task_start) task)
                         # rest))))"

text \<open>
  The per-task compression shared by \<^verbatim>\<open>calculate_deadlines\<close> and the shrinking branch of
  \<^verbatim>\<open>generate_task_plan\<close>, and the expansion of the latter.
\<close>

definition priority_scale :: "pydict \<Rightarrow> rat \<Rightarrow> rat" where
  "priority_scale task base_scale =
     (if get_or task ''priority'' PNone = PStr ''high'' then base_scale * (11 / 10)
      else if get_or task ''priority'' PNone = PStr ''low'' then base_scale * (9 / 10)
      else base_scale)"

definition shrink_task :: "rat \<Rightarrow> pydict \<Rightarrow> error + pydict" where
  "shrink_task scale_factor task =
     (case map_of task ''estimated_hours'' of
        None \<Rightarrow> Inl KeyError
      | Some v \<Rightarrow>
          ebind (as_number v)
            (\<lambda>original_hours.
               let s0 = priority_scale task scale_factor;
                   task_scale = (if original_hours > 8 then s0 * (19 / 20) else s0);
                   new_hours = max 1 (original_hours * task_scale)
               in Inr (AList.update ''estimated_hours'' (PFloat (round1 new_hours)) task)))"

definition expand_task :: "rat \<Rightarrow> pydict \<Rightarrow> error + pydict" where
  "expand_task scale_factor task =
     (case map_of task ''estimated_hours'' of
        None \<Rightarrow> Inl KeyError
      | Some v \<Rightarrow>
          ebind (as_number v)
            (\<lambda>original_hours.
               let s0 = priority_scale task scale_factor;
                   task_scale = (if original_hours < 4 then s0 * (21 / 20) else s0);
                   new_hours = max 1 (original_hours * task_scale)
               in Inr (AList.update ''estimated_hours'' (PFloat (round1 new_hours)) task)))"

fun map_tasks :: "(pydict \<Rightarrow> error + pydict) \<Rightarrow> pydict list \<Rightarrow> error + pydict list" where
  "map_tasks f [] = Inr []"
| "map_tasks f (task # tasks) =
     ebind (f task) (\<lambda>t. ebind (map_tasks f tasks) (\<lambda>ts. Inr (t # ts)))"

text \<open>\<^verbatim>\<open>datetime.fromisoformat(task[k])\<close>\<close>

definition read_iso :: "pydict \<Rightarrow> string \<Rightarrow> error + rat" where
  "read_iso task k =
     (case map_of task k of
        None \<Rightarrow> Inl KeyError
      | Some (PIso t) \<Rightarrow> Inr t
      | Some (PStr s) \<Rightarrow> Inl ValueError
      | Some v \<Rightarrow> Inl TypeError)"

text \<open>
  The start date arrives parsed, as the instant \<open>current_date\<close>. In the branch that gives up
  scaling, a log line divides by the scale factor before the deadlines are recomputed.
\<close>

definition calculate_deadlines ::
  "py_builtins \<Rightarrow> pydict list \<Rightarrow> rat \<Rightarrow> string option \<Rightarrow> error + pydict list" where
  "calculate_deadlines B tasks current_date timeframe =
     ebind (schedule_loop B current_date 0 [] tasks)
       (\<lambda>tasks1.
          if timeframe_given timeframe \<and> tasks1 \<noteq> [] then
            ebind (read_iso (hd tasks1) ''start_time'')
              (\<lambda>first_task_start.
                 let timeframe_days = parse_timeframe_to_days timeframe;
                     available_hours = rat_of_int (timeframe_days * 8)
                 in ebind (sum_estimated_hours tasks1)
                      (\<lambda>total_estimated_hours.
                         let working_days = total_estimated_hours / 8;
                             exceeds_hours = total_estimated_hours > available_hours;
                             exceeds_days = working_days > rat_of_int timeframe_days
                         in if exceeds_hours \<or> exceeds_days then
                              (let hour_scale_factor =
                                     (if total_estimated_hours > 0
                                      then available_hours / total_estimated_hours else 1);
                                   day_scale_factor =
                                     (if working_days > 0
                                      then rat_of_int timeframe_days / working_days else 1);
                                   scale_factor = min hour_scale_factor day_scale_factor
                               in if scale_factor < 4 / 5 then
                                    (if scale_factor = 0 then Inl ZeroDivisionError
                                     else recompute_loop B first_task_start 0 [] tasks1)
                                  else
                                    ebind (if scale_factor > 4 / 5 \<and> scale_factor < 1
                                           then map_tasks (shrink_task scale_factor) tasks1
                                           else Inr tasks1)
                                      (\<lambda>tasks2. recompute_loop B first_task_start 0 [] tasks2))
                            else Inr tasks1))
          else Inr tasks1)"

section \<open>The pipeline: \<^verbatim>\<open>generate_task_plan\<close> from step 4 on\<close>

text \<open>
  The log line of the scaling loops slices \<^verbatim>\<open>task['title'][:30]\<close>, which a \<^verbatim>\<open>str\<close> or a
  list supports.
\<close>

definition log_title :: "pydict \<Rightarrow> error + unit" where
  "log_title task =
     (case map_of task ''title'' of
        None \<Rightarrow> Inl KeyError
      | Some (PStr s) \<Rightarrow> Inr ()
      | Some (PIso t) \<Rightarrow> Inr ()
      | Some (PList xs) \<Rightarrow> Inr ()
      | Some v \<Rightarrow> Inl TypeError)"

definition logged :: "(pydict \<Rightarrow> error + pydict) \<Rightarrow> pydict \<Rightarrow> error + pydict" where
  "logged f task = ebind (f task) (\<lambda>t. ebind (log_title t) (\<lambda>u. Inr t))"

text \<open>Step 4b, entered when a timeframe is given and the tasks are not compliant.\<close>

definition scale_to_timeframe :: "pydict list \<Rightarrow> string option \<Rightarrow> error + pydict list" where
  "scale_to_timeframe validated_tasks timeframe =
     (let timeframe_days = parse_timeframe_to_days timeframe;
          available_hours = rat_of_int (timeframe_days * 8)
      in ebind (sum_estimated_hours validated_tasks)
           (\<lambda>total_estimated_hours.
              let min_allowed_hours = available_hours * (4 / 5);
                  max_allowed_hours = available_hours * (6 / 5)
              in if total_estimated_hours < min_allowed_hours then
                   (if total_estimated_hours = 0 then Inl ZeroDivisionError
                    else map_tasks
                           (logged (expand_task (min_allowed_hours / total_estimated_hours)))
                           validated_tasks)
                 else if total_estimated_hours > max_allowed_hours then
                   (if total_estimated_hours = 0 then Inl ZeroDivisionError
                    else map_tasks
                           (logged (shrink_task (max_allowed_hours / total_estimated_hours)))
                           validated_tasks)
                 else Inr validated_tasks))"

text \<open>Step 4c: the error raised when the tasks are still not compliant.\<close>

definition timeframe_error :: "string option \<Rightarrow> rat \<Rightarrow> error" where
  "timeframe_error timeframe total_estimated_hours =
     (let timeframe_days = parse_timeframe_to_days timeframe;
          available_hours = rat_of_int (timeframe_days * 8)
      in LLMGenerationError
           (if total_estimated_hours > available_hours * (6 / 5)
            then \<lparr>error_type = ''too much work'',
                  generated_hours = total_estimated_hours, available = available_hours,
                  valid_from = available_hours * (4 / 5), valid_to = available_hours * (6 / 5),
                  suggestion = ''1) Extend timeframe, 2) Simplify goal, 3) Remove constraints, or 4) Break goal into smaller phases''\<rparr>
            else \<lparr>error_type = ''too little work'',
                  generated_hours = total_estimated_hours, available = available_hours,
                  valid_from = available_hours * (4 / 5), valid_to = available_hours * (6 / 5),
                  suggestion = ''1) Expand goal scope, 2) Add more detailed tasks, 3) Include research/planning phases, or 4) Consider if goal is too simple for this timeframe''\<rparr>))"

record plan =
  tasks :: "pydict list"
  total_estimated_hours :: rat
  estimated_completion :: pyval

text \<open>
  Steps 4 to 8 of \<^verbatim>\<open>generate_task_plan\<close>, on \<^verbatim>\<open>tasks_data["tasks"]\<close>, the constraints, the
  timeframe and the parsed start date of the request. The function wraps whatever is
  raised in its body in an exception that keeps the message; the result here is the
  error before that wrapping.
\<close>

definition generate_task_plan ::
  "py_builtins \<Rightarrow> pydict list \<Rightarrow> pydict option \<Rightarrow> string option \<Rightarrow> rat \<Rightarrow> error + plan" where
  "generate_task_plan B raw_tasks constraints timeframe start_date =
     ebind (validate_and_fix_tasks B raw_tasks)
       (\<lambda>fixed.
     ebind (apply_practical_time_adjustments B fixed constraints)
       (\<lambda>adjusted.
     ebind (validate_timeframe_compliance adjusted timeframe)
       (\<lambda>compliant.
     ebind (if timeframe_given timeframe \<and> \<not> compliant
            then scale_to_timeframe adjusted timeframe else Inr adjusted)
       (\<lambda>validated_tasks.
     ebind (validate_timeframe_compliance validated_tasks timeframe)
       (\<lambda>compliant_now.
          if timeframe_given timeframe \<and> \<not> compliant_now then
            ebind (sum_estimated_hours validated_tasks)
              (\<lambda>total. Inl (timeframe_error timeframe total))
          else
            ebind (split_long_tasks B validated_tasks 24 8)
              (\<lambda>tasks_prepared.
            ebind (calculate_deadlines B tasks_prepared start_date timeframe)
              (\<lambda>tasks_with_deadlines.
            ebind (sum_estimated_hours tasks_with_deadlines)
              (\<lambda>total_hours.
                 Inr \<lparr>tasks = tasks_with_deadlines,
                      total_estimated_hours = total_hours,
                      estimated_completion =
                        (if tasks_with_deadlines = [] then PNone
                         else item (last tasks_with_deadlines) ''deadline'')\<rparr>))))))))"

text \<open>
  An instance of the library parameters for runs on concrete inputs whose titles and
  descriptions are \<^verbatim>\<open>str\<close> and whose hours are numbers, so that none of the three is
  consulted.
\<close>

definition plain_builtins :: py_builtins where
  "plain_builtins = \<lparr>float_of_str = (\<lambda>s. None), format_other = (\<lambda>v. []), isoformat = (\<lambda>t. [])\<rparr>"

section \<open>Predicates of the specification\<close>

text \<open>
  The dependencies of the task at position \<open>i\<close> are a list of integers \<open>d\<close> with
  \<open>0 \<le> d < i\<close>.
\<close>

definition dependencies_before :: "nat \<Rightarrow> pydict \<Rightarrow> bool" where
  "dependencies_before i task =
     (case map_of task ''dependencies'' of
        Some (PList deps) \<Rightarrow>
          list_all (\<lambda>d. case int_value d of None \<Rightarrow> False | Some n \<Rightarrow> 0 \<le> n \<and> n < int i) deps
      | _ \<Rightarrow> False)"



text \<open>A task record as the validator leaves its three fields that matter to the splitter.\<close>

definition example_task :: "string \<Rightarrow> rat \<Rightarrow> pyval list \<Rightarrow> pydict" where
  "example_task title h deps =
     [(''title'', PStr title), (''estimated_hours'', PFloat h), (''dependencies'', PList deps)]"

text \<open>The three fields of a task that the splitter decides.\<close>

definition chunk_view :: "pydict \<Rightarrow> pyval option \<times> pyval option \<times> pyval option" where
  "chunk_view t = (map_of t ''title'', map_of t ''estimated_hours'', map_of t ''dependencies'')"

text \<open>
  What the first loop of the validator establishes for the task at index \<open>i\<close>: a truthy
  title and description, hours that are an int or a float with one decimal, the three
  enumerated fields within their values, and dependencies that precede \<open>i\<close>.
\<close>

definition fixed_task :: "nat \<Rightarrow> pydict \<Rightarrow> bool" where
  "fixed_task i t =
     ((case map_of t ''title'' of None \<Rightarrow> False | Some v \<Rightarrow> truthy v)
      \<and> (case map_of t ''description'' of None \<Rightarrow> False | Some v \<Rightarrow> truthy v)
      \<and> (case map_of t ''estimated_hours'' of
            None \<Rightarrow> False
          | Some v \<Rightarrow> py_num v \<noteq> None \<and> py_round1 v = Inr v)
      \<and> (case map_of t ''priority'' of
            None \<Rightarrow> False
          | Some v \<Rightarrow> v \<in> set [PStr ''high'', PStr ''medium'', PStr ''low''])
      \<and> (case map_of t ''complexity_level'' of
            None \<Rightarrow> False
          | Some v \<Rightarrow> v \<in> set [PStr ''simple'', PStr ''moderate'', PStr ''complex'',
                                 PStr ''expert''])
      \<and> (case map_of t ''task_type'' of
            None \<Rightarrow> False
          | Some v \<Rightarrow> v \<in> set [PStr ''research'', PStr ''design'', PStr ''implementation'',
                                 PStr ''testing'', PStr ''deployment'', PStr ''documentation''])
      \<and> dependencies_before i t)"

text \<open>The stored hours are a number above zero.\<close>

definition positive_hours :: "pydict \<Rightarrow> bool" where
  "positive_hours t =
     (case map_of t ''estimated_hours'' of
        None \<Rightarrow> False
      | Some v \<Rightarrow> (case py_num v of None \<Rightarrow> False | Some r \<Rightarrow> 0 < r))"

text \<open>Two task records that differ at most in the priority.\<close>

definition same_but_priority :: "pydict \<Rightarrow> pydict \<Rightarrow> bool" where
  "same_but_priority t t' = (\<forall>k. k \<noteq> ''priority'' \<longrightarrow> map_of t' k = map_of t k)"

text \<open>Steps 4 and 4a of the pipeline, the validator followed by the effort re-estimation.\<close>

definition validate_and_estimate ::
  "py_builtins \<Rightarrow> pydict option \<Rightarrow> pydict list \<Rightarrow> error + pydict list" where
  "validate_and_estimate B constraints raw_tasks =
     ebind (validate_and_fix_tasks B raw_tasks)
       (\<lambda>fixed. apply_practical_time_adjustments B fixed constraints)"

text \<open>Both adjustments of the priority pass rewrite single positions with \<open>set_priority\<close>.\<close>

definition pass_invariant :: "pydict list \<Rightarrow> pydict list \<Rightarrow> bool" where
  "pass_invariant xs ys =
     (length ys = length xs
      \<and> (\<forall>j<length xs. same_but_priority (xs ! j) (ys ! j)
            \<and> (\<forall>i. fixed_task i (xs ! j) \<longrightarrow> fixed_task i (ys ! j))
            \<and> positive_hours (ys ! j) = positive_hours (xs ! j)))"

text \<open>
  A run for the dependency properties: two raw tasks with forward, negative and
  non-integer references, what the validator makes of them, and what the splitter makes of
  that with threshold 24 and chunk size 8.
\<close>

definition two_raw_tasks :: "pydict list" where
  "two_raw_tasks =
     [[(''title'', PStr ''Plan''), (''estimated_hours'', PInt 30),
       (''dependencies'', PList [PInt 0, PInt 1, PStr ''0'', PInt (- 1), PBool True])],
      [(''title'', PStr ''Ship''), (''estimated_hours'', PInt 4),
       (''dependencies'', PList [PInt 0, PInt 1, PStr ''0'', PInt (- 1), PFloat 0])]]"

definition two_validated_tasks :: "pydict list" where
  "two_validated_tasks =
     [[(''title'', PStr ''Plan''), (''estimated_hours'', PInt 30),
       (''dependencies'', PList []),
       (''description'', PStr ''No description provided''),
       (''priority'', PStr ''medium''),
       (''complexity_level'', PStr ''moderate''),
       (''task_type'', PStr ''design'')],
      [(''title'', PStr ''Ship''), (''estimated_hours'', PInt 4),
       (''dependencies'', PList [PInt 0]),
       (''description'', PStr ''No description provided''),
       (''priority'', PStr ''medium''),
       (''complexity_level'', PStr ''moderate''),
       (''task_type'', PStr ''implementation'')]]"

definition two_split_tasks :: "pydict list" where
  "two_split_tasks =
     [[(''title'', PStr ''Plan (Part 1 of 4)''),
       (''estimated_hours'', PFloat 8), (''dependencies'', PList []),
       (''description'', PStr ''No description provided''),
       (''priority'', PStr ''medium''),
       (''complexity_level'', PStr ''moderate''),
       (''task_type'', PStr ''design''), (''id'', PInt 0)],
      [(''title'', PStr ''Plan (Part 2 of 4)''),
       (''estimated_hours'', PFloat 8), (''dependencies'', PList [PInt 0]),
       (''description'', PStr ''No description provided''),
       (''priority'', PStr ''medium''),
       (''complexity_level'', PStr ''moderate''),
       (''task_type'', PStr ''design''), (''id'', PInt 1)],
      [(''title'', PStr ''Plan (Part 3 of 4)''),
       (''estimated_hours'', PFloat 8), (''dependencies'', PList [PInt 1]),
       (''description'', PStr ''No description provided''),
       (''priority'', PStr ''medium''),
       (''complexity_level'', PStr ''moderate''),
       (''task_type'', PStr ''design''), (''id'', PInt 2)],
      [(''title'', PStr ''Plan (Part 4 of 4)''),
       (''estimated_hours'', PFloat 6), (''dependencies'', PList [PInt 2]),
       (''description'', PStr ''No description provided''),
       (''priority'', PStr ''medium''),
       (''complexity_level'', PStr ''moderate''),
       (''task_type'', PStr ''design''), (''id'', PInt 3)],
      [(''title'', PStr ''Ship''), (''estimated_hours'', PFloat 4),
       (''dependencies'', PList [PInt 3]),
       (''description'', PStr ''No description provided''),
       (''priority'', PStr ''medium''),
       (''complexity_level'', PStr ''moderate''),
       (''task_type'', PStr ''implementation''), (''id'', PInt 4)]]"

text \<open>
  A run for the re-estimation: one raw task, the result of the validator and estimator on
  it, and the result of running both again on that result.
\<close>

definition one_raw_task :: "pydict list" where
  "one_raw_task = [[(''title'', PStr ''Task''), (''estimated_hours'', PInt 4)]]"

definition estimated_once :: "pydict list" where
  "estimated_once =
     [[(''title'', PStr ''Task''), (''estimated_hours'', PFloat 8),
       (''description'', PStr ''No description provided''),
       (''priority'', PStr ''medium''),
       (''complexity_level'', PStr ''moderate''),
       (''task_type'', PStr ''implementation''),
       (''dependencies'', PList []), (''base_hours'', PInt 4),
       (''overhead_factors'',
        PDict
         [(''complexity_multiplier'', PFloat (3 / 2)),
          (''experience_multiplier'', PFloat 1),
          (''technical_stack_multiplier'', PFloat 1),
          (''task_type_overhead'', PFloat 2)])]]"

definition estimated_twice :: "pydict list" where
  "estimated_twice =
     [[(''title'', PStr ''Task''), (''estimated_hours'', PFloat 14),
       (''description'', PStr ''No description provided''),
       (''priority'', PStr ''medium''),
       (''complexity_level'', PStr ''moderate''),
       (''task_type'', PStr ''implementation''),
       (''dependencies'', PList []), (''base_hours'', PFloat 8),
       (''overhead_factors'',
        PDict
         [(''complexity_multiplier'', PFloat (3 / 2)),
          (''experience_multiplier'', PFloat 1),
          (''technical_stack_multiplier'', PFloat 1),
          (''task_type_overhead'', PFloat 2)])]]"

definition validated_once :: "pydict list" where
  "validated_once =
     [[(''title'', PStr ''Task''), (''estimated_hours'', PInt 4),
       (''description'', PStr ''No description provided''),
       (''priority'', PStr ''medium''),
       (''complexity_level'', PStr ''moderate''),
       (''task_type'', PStr ''implementation''),
       (''dependencies'', PList [])]]"

text \<open>A task record with every field that the validator looks at already in place.\<close>

definition titled_task :: "string \<Rightarrow> pydict" where
  "titled_task title =
     [(''title'', PStr title), (''description'', PStr ''x''), (''estimated_hours'', PInt 2),
      (''priority'', PStr ''medium''), (''complexity_level'', PStr ''simple''),
      (''task_type'', PStr ''testing''), (''dependencies'', PList [])]"



text \<open>The recorded deadline of a task is an instant at or before \<open>s\<close>.\<close>

definition deadline_at_most :: "pydict \<Rightarrow> rat \<Rightarrow> bool" where
  "deadline_at_most t s = (case map_of t ''deadline'' of Some (PIso e) \<Rightarrow> e \<le> s | _ \<Rightarrow> False)"

text \<open>
  The task at position \<open>i\<close> of a schedule starts at or after the deadline of each task it
  declares as a dependency, and at or after the deadline of the task before it.
\<close>

definition starts_after_dependencies :: "pydict list \<Rightarrow> nat \<Rightarrow> bool" where
  "starts_after_dependencies out i =
     (case map_of (out ! i) ''start_time'' of
        Some (PIso s) \<Rightarrow>
          (case map_of (out ! i) ''dependencies'' of
             Some (PList deps) \<Rightarrow>
               list_all (\<lambda>d. case int_value d of
                              None \<Rightarrow> False
                            | Some n \<Rightarrow> 0 \<le> n \<and> nat n < length out
                                        \<and> deadline_at_most (out ! nat n) s) deps
           | _ \<Rightarrow> False)
          \<and> (i = 0 \<or> deadline_at_most (out ! (i - 1)) s)
      | _ \<Rightarrow> False)"



text \<open>
  Two tasks of 4 and 5 hours, the second depending on the first, and their schedule from a
  Monday at 09:00 with one day to do them: the hours are compressed to 3.6 and 4.4.
\<close>

definition design_and_build :: "pydict list" where
  "design_and_build = [example_task ''Design'' 4 [], example_task ''Build'' 5 [PInt 0]]"

definition design_and_build_schedule :: "pydict list" where
  "design_and_build_schedule =
     [[(''title'', PStr ''Design''), (''estimated_hours'', PFloat (18 / 5)),
       (''dependencies'', PList []), (''id'', PInt 0),
       (''deadline'', PIso (63 / 5)), (''start_time'', PIso 9)],
      [(''title'', PStr ''Build''), (''estimated_hours'', PFloat (22 / 5)),
       (''dependencies'', PList [PInt 0]), (''id'', PInt 1),
       (''deadline'', PIso (67 / 5)), (''start_time'', PIso (63 / 5))]]"

text \<open>
  A documentation task of simple complexity, which the estimator leaves at its hours plus
  0.2, rounded to a practical increment.
\<close>

definition doc_task :: "rat \<Rightarrow> pydict" where
  "doc_task h =
     [(''title'', PStr ''Docs''), (''estimated_hours'', PFloat h),
      (''complexity_level'', PStr ''simple''), (''task_type'', PStr ''documentation'')]"

definition small_docs :: "pydict list" where
  "small_docs = [doc_task (3 / 10), doc_task (3 / 10), doc_task (83 / 10)]"

text \<open>The hours of the tasks of a returned plan, and the total it reports.\<close>

definition hours_in_plan :: "error + plan \<Rightarrow> error + pyval list \<times> rat" where
  "hours_in_plan r =
     map_sum id (\<lambda>p. (map (\<lambda>t. item t ''estimated_hours'') (tasks p), total_estimated_hours p)) r"

text \<open>The compliance check of step 4c, run on the tasks of a returned plan.\<close>

definition plan_compliance :: "error + plan \<Rightarrow> string option \<Rightarrow> error + bool" where
  "plan_compliance r timeframe =
     ebind r (\<lambda>p. validate_timeframe_compliance (tasks p) timeframe)"

text \<open>A documentation task as the validator and the estimator return it.\<close>

definition estimated_doc :: "rat \<Rightarrow> rat \<Rightarrow> pydict" where
  "estimated_doc h base =
     [(''title'', PStr ''Docs''), (''estimated_hours'', PFloat h),
      (''complexity_level'', PStr ''simple''), (''task_type'', PStr ''documentation''),
      (''description'', PStr ''No description provided''),
      (''priority'', PStr ''medium''), (''dependencies'', PList []),
      (''base_hours'', PFloat base),
      (''overhead_factors'',
       PDict [(''complexity_multiplier'', PFloat 1), (''experience_multiplier'', PFloat 1),
              (''technical_stack_multiplier'', PFloat 1),
              (''task_type_overhead'', PFloat (1 / 5))])]"

text \<open>The result is the timeframe violation of step 4c.\<close>

definition rejected :: "error + 'a \<Rightarrow> bool" where
  "rejected r = (case r of Inl (LLMGenerationError v) \<Rightarrow> True | _ \<Rightarrow> False)"

section \<open>Properties\<close>

lemma floor_rat_numeral [simp]: "\<lfloor>numeral a / numeral b :: rat\<rfloor> = numeral a div numeral b"
  using floor_divide_of_int_eq [of "numeral a" "numeral b", where ?'a = rat] by simp

subsection \<open>String-valued hours\<close>

text \<open>
  Claim C2. A task record without a priority whose \<^verbatim>\<open>estimated_hours\<close> is the string
  \<^verbatim>\<open>"-3"\<close> should come back from the validator with priority medium and 4.0 hours.
  In the code the comparison \<^verbatim>\<open>task["estimated_hours"] <= 0\<close> of fix 3 runs before the
  string conversion of fix 4 and raises \<^verbatim>\<open>TypeError\<close> on a \<^verbatim>\<open>str\<close>, whatever
  \<^verbatim>\<open>float\<close> would have made of the text: the validator returns nothing.
\<close>

theorem validate_string_hours_raises:
  "validate_and_fix_tasks B
     [[(''title'', PStr ''Write tests''), (''estimated_hours'', PStr ''-3'')]] = Inl TypeError"
  by (simp add: validate_and_fix_tasks_def fix_task_def fix_estimated_hours_def fix_title_def
      fix_description_def py_le_zero_def)

subsection \<open>Auxiliary facts\<close>

lemma ebind_Inl [simp]: "ebind (Inl e) f = Inl e"
  by (simp add: ebind_def)

lemma ebind_Inr [simp]: "ebind (Inr x) f = f x"
  by (simp add: ebind_def)

lemma ebind_eq_Inr: "ebind m f = Inr y \<longleftrightarrow> (\<exists>x. m = Inr x \<and> f x = Inr y)"
  by (cases m) simp_all

lemma round_half_even_lower: "rat_of_int k \<le> y \<Longrightarrow> k \<le> round_half_even y"
proof -
  assume "rat_of_int k \<le> y"
  then have "k \<le> \<lfloor>y\<rfloor>" by (simp add: le_floor_iff)
  then show ?thesis by (simp add: round_half_even_def Let_def)
qed


lemma round1_lower: "rat_of_int k / 10 \<le> x \<Longrightarrow> rat_of_int k / 10 \<le> round1 x"
proof -
  assume "rat_of_int k / 10 \<le> x"
  then have "rat_of_int k \<le> x * 10" by simp
  then have "k \<le> round_half_even (x * 10)" by (rule round_half_even_lower)
  then show ?thesis by (simp add: round1_def divide_le_cancel)
qed


lemma round1_ge_one: "1 \<le> x \<Longrightarrow> 1 \<le> round1 x"
  using round1_lower [of 10 x] by simp


lemma map_of_update [simp]:
  "map_of (AList.update k v al) k' = (if k' = k then Some v else map_of al k')"
  by (simp add: update_conv')

lemma length_assign_ids [simp]: "length (assign_ids i ts) = length ts"
  by (induction ts arbitrary: i) simp_all

lemma nth_assign_ids:
  "j < length ts \<Longrightarrow> assign_ids i ts ! j = AList.update ''id'' (PInt (int (i + j))) (ts ! j)"
proof (induction ts arbitrary: i j)
  case Nil
  then show ?case by simp
next
  case (Cons t ts)
  then show ?case by (cases j) (simp_all add: ac_simps)
qed

lemma length_make_parts [simp]:
  "length (make_parts task bt tp fd pidx pos parts) = length parts"
  by (induction parts arbitrary: pidx pos) simp_all

lemma nth_make_parts:
  "k < length parts \<Longrightarrow>
   make_parts task bt tp fd pidx pos parts ! k =
     AList.update ''dependencies''
       (if pidx + k = 1 then index_list fd else index_list [pos + k - 1])
       (AList.update ''estimated_hours'' (PFloat (round1 (max 1 (parts ! k))))
          (AList.update ''title''
             (PStr (bt @ '' (Part '' @ str_nat (pidx + k) @ '' of '' @ str_nat tp @ '')''))
             task))"
proof (induction parts arbitrary: pidx pos k)
  case Nil
  then show ?case by simp
next
  case (Cons p parts)
  show ?case
  proof (cases k)
    case 0
    then show ?thesis by simp
  next
    case (Suc k')
    with Cons.prems have "k' < length parts" by simp
    from Cons.IH [OF this, of "Suc pidx" "Suc pos"] Suc show ?thesis by simp
  qed
qed

lemma make_parts_eq_Nil [simp]:
  "make_parts task bt tp fd pidx pos parts = [] \<longleftrightarrow> parts = []"
  by (cases parts) simp_all

lemma split_parts_nonempty: "split_parts h c = Inr parts \<Longrightarrow> parts \<noteq> []"
  by (auto simp: split_parts_def Let_def split: if_splits)

lemma split_loop_invariant:
  assumes "split_loop B th ch idx new olpi ts = Inr (res, olpi')"
    and "I idx new olpi"
    and step: "\<And>idx new olpi task added. I idx new olpi \<Longrightarrow> task \<in> set ts \<Longrightarrow>
            split_task B th ch olpi (length new) task = Inr added \<Longrightarrow>
            I (Suc idx) (new @ added) (olpi(int idx \<mapsto> length (new @ added) - 1))"
  shows "I (idx + length ts) res olpi'"
  using assms
proof (induction ts arbitrary: idx new olpi)
  case Nil
  then show ?case by simp
next
  case (Cons task ts)
  from Cons.prems(1) obtain added where
    a: "split_task B th ch olpi (length new) task = Inr added" and
    r: "split_loop B th ch (Suc idx) (new @ added)
          (olpi(int idx \<mapsto> length (new @ added) - 1)) ts = Inr (res, olpi')"
    by (auto simp: ebind_eq_Inr)
  have i: "I (Suc idx) (new @ added) (olpi(int idx \<mapsto> length (new @ added) - 1))"
    using Cons.prems(2) a by (intro Cons.prems(3)) simp_all
  have "I (Suc idx + length ts) res olpi'"
    by (rule Cons.IH [OF r i]) (rule Cons.prems(3), simp_all)
  then show ?case by simp
qed


subsection \<open>Dependencies in the splitter\<close>

lemma remap_deps_range: "j \<in> set (remap_deps olpi ds) \<Longrightarrow> \<exists>n. olpi n = Some j"
  by (induction ds) (auto split: option.splits)

lemma dependencies_before_index_list:
  "dependencies_before i (AList.update ''dependencies'' (index_list js) t) \<longleftrightarrow> (\<forall>j\<in>set js. j < i)"
  by (auto simp: dependencies_before_def index_list_def list_all_iff)

lemma dependencies_before_update_other:
  "k \<noteq> ''dependencies'' \<Longrightarrow>
   dependencies_before i (AList.update k v t) = dependencies_before i t"
  by (simp add: dependencies_before_def)

lemma split_task_nonempty:
  "split_task B th ch olpi pos task = Inr added \<Longrightarrow> added \<noteq> []"
  by (auto simp: split_task_def ebind_eq_Inr split: if_splits dest!: split_parts_nonempty)

lemma split_task_dependencies:
  assumes "split_task B th ch olpi pos task = Inr added"
    and "\<And>n l. olpi n = Some l \<Longrightarrow> l < pos"
    and "k < length added"
  shows "dependencies_before (pos + k) (added ! k)"
proof -
  from assms(1) obtain hours where h: "effective_hours B task = Inr hours"
    by (auto simp: split_task_def ebind_eq_Inr)
  show ?thesis
  proof (cases "hours \<le> th")
    case True
    with assms(1) h obtain deps where
      "added = [AList.update ''estimated_hours'' (PFloat (round1 hours))
                  (AList.update ''dependencies'' (index_list (remap_deps olpi deps)) task)]"
      by (auto simp: split_task_def ebind_eq_Inr)
    moreover have "\<forall>j\<in>set (remap_deps olpi deps). j < pos"
      using assms(2) by (auto dest: remap_deps_range)
    ultimately show ?thesis using assms(3)
      by (simp add: dependencies_before_update_other dependencies_before_index_list)
  next
    case False
    with assms(1) h obtain parts deps where
      a: "added = make_parts task (py_format B (get_or task ''title'' (PStr ''Task'')))
                (length parts) (remap_deps olpi deps) 1 pos parts"
      by (auto simp: split_task_def ebind_eq_Inr)
    have fd: "\<forall>j\<in>set (remap_deps olpi deps). j < pos"
      using assms(2) by (auto dest: remap_deps_range)
    from assms(3) a have kl: "k < length parts" by simp
    show ?thesis
    proof (cases k)
      case 0
      then show ?thesis using a kl fd
        by (simp add: nth_make_parts dependencies_before_index_list)
    next
      case (Suc k')
      then show ?thesis using a kl
        by (simp add: nth_make_parts dependencies_before_index_list)
    qed
  qed
qed

lemma split_loop_dependencies:
  assumes "split_loop B th ch idx new olpi ts = Inr (res, olpi')"
    and "\<forall>j<length new. dependencies_before j (new ! j)"
    and "\<forall>n l. olpi n = Some l \<longrightarrow> l < length new"
  shows "\<forall>j<length res. dependencies_before j (res ! j)"
proof -
  let ?I = "\<lambda>(idx::nat) new olpi. (\<forall>j<length new. dependencies_before j (new ! j))
              \<and> (\<forall>n l. olpi n = Some l \<longrightarrow> l < length new)"
  have "?I (idx + length ts) res olpi'"
  proof (rule split_loop_invariant [where I = ?I, OF assms(1)])
    show "?I idx new olpi" using assms(2,3) by simp
  next
    fix idx new olpi task added
    assume i: "?I idx new olpi" and s: "split_task B th ch olpi (length new) task = Inr added"
    have ne: "added \<noteq> []" using s by (rule split_task_nonempty)
    have d: "\<forall>k<length added. dependencies_before (length new + k) (added ! k)"
      using split_task_dependencies [OF s] i by blast
    have "\<forall>j<length (new @ added). dependencies_before j ((new @ added) ! j)"
    proof (intro allI impI)
      fix j assume "j < length (new @ added)"
      show "dependencies_before j ((new @ added) ! j)"
      proof (cases "j < length new")
        case True
        then show ?thesis using i by (simp add: nth_append)
      next
        case False
        then have "j - length new < length added" using \<open>j < length (new @ added)\<close> by simp
        with d have "dependencies_before (length new + (j - length new)) (added ! (j - length new))"
          by blast
        then show ?thesis using False by (simp add: nth_append)
      qed
    qed
    moreover have "\<forall>n l. (olpi(int idx \<mapsto> length (new @ added) - 1)) n = Some l
                    \<longrightarrow> l < length (new @ added)"
    proof (intro allI impI)
      fix n l assume u: "(olpi(int idx \<mapsto> length (new @ added) - 1)) n = Some l"
      show "l < length (new @ added)"
      proof (cases "n = int idx")
        case True
        with u ne show ?thesis by (cases added) auto
      next
        case False
        with u i have "l < length new" by simp
        then show ?thesis by simp
      qed
    qed
    ultimately show "?I (Suc idx) (new @ added) (olpi(int idx \<mapsto> length (new @ added) - 1))"
      by simp
  qed
  then show ?thesis by simp
qed

lemma split_long_tasks_dependencies:
  assumes "split_long_tasks B ts th ch = Inr out"
  shows "\<forall>j<length out. dependencies_before j (out ! j)"
proof (cases "ts = []")
  case True
  with assms show ?thesis by (simp add: split_long_tasks_def)
next
  case False
  with assms obtain new olpi where
    l: "split_loop B th ch 0 [] Map.empty ts = Inr (new, olpi)" and o: "out = assign_ids 0 new"
    by (auto simp: split_long_tasks_def ebind_eq_Inr)
  have "\<forall>j<length new. dependencies_before j (new ! j)"
    by (rule split_loop_dependencies [OF l]) simp_all
  then show ?thesis using o
    by (simp add: nth_assign_ids dependencies_before_update_other)
qed

subsection \<open>Chunks in the splitter\<close>




subsection \<open>Remapped dependencies in the splitter\<close>



subsection \<open>Hours in the splitter\<close>

lemma effective_hours_ge_one: "effective_hours B task = Inr h \<Longrightarrow> 1 \<le> h"
  by (auto simp: effective_hours_def Let_def ebind_eq_Inr)

lemma split_task_hours:
  assumes "split_task B th ch olpi pos task = Inr added" and "t \<in> set added"
  shows "\<exists>h. map_of t ''estimated_hours'' = Some (PFloat h) \<and> 1 \<le> h"
proof -
  from assms(1) obtain hours where h: "effective_hours B task = Inr hours"
    by (auto simp: split_task_def ebind_eq_Inr)
  show ?thesis
  proof (cases "hours \<le> th")
    case True
    with assms h show ?thesis
      by (auto simp: split_task_def ebind_eq_Inr intro!: round1_ge_one dest: effective_hours_ge_one)
  next
    case False
    with assms(1) h obtain parts deps where
      a: "added = make_parts task (py_format B (get_or task ''title'' (PStr ''Task'')))
                (length parts) (remap_deps olpi deps) 1 pos parts"
      by (auto simp: split_task_def ebind_eq_Inr)
    from assms(2) obtain k where "k < length added" "t = added ! k"
      by (auto simp: in_set_conv_nth)
    then show ?thesis using a by (simp add: nth_make_parts round1_ge_one)
  qed
qed



lemma assign_ids_set:
  "t \<in> set (assign_ids i ts) \<Longrightarrow> \<exists>t0 n. t0 \<in> set ts \<and> t = AList.update ''id'' (PInt n) t0"
proof (induction ts arbitrary: i)
  case Nil
  then show ?case by simp
next
  case (Cons a ts)
  show ?case
  proof (cases "t = AList.update ''id'' (PInt (int i)) a")
    case True
    then show ?thesis by auto
  next
    case False
    with Cons.prems have "t \<in> set (assign_ids (Suc i) ts)" by simp
    from Cons.IH [OF this] show ?thesis by auto
  qed
qed

lemma split_loop_all:
  assumes "split_loop B th ch idx new olpi ts = Inr (res, olpi')"
    and "\<forall>t\<in>set new. P t"
    and "\<And>olpi pos task added t. split_task B th ch olpi pos task = Inr added \<Longrightarrow> t \<in> set added \<Longrightarrow> P t"
  shows "\<forall>t\<in>set res. P t"
  by (rule split_loop_invariant [where I = "\<lambda>idx new olpi. \<forall>t\<in>set new. P t", OF assms(1,2)])
     (auto dest: assms(3))

lemma split_long_tasks_loop:
  "split_long_tasks B ts th ch = Inr out \<Longrightarrow>
   \<exists>new olpi. split_loop B th ch 0 [] Map.empty ts = Inr (new, olpi) \<and> out = assign_ids 0 new"
  by (cases "ts = []") (auto simp: split_long_tasks_def ebind_eq_Inr)

lemma split_long_tasks_hours:
  assumes "split_long_tasks B ts th ch = Inr out" and "t \<in> set out"
  shows "\<exists>h. map_of t ''estimated_hours'' = Some (PFloat h) \<and> 1 \<le> h"
proof -
  from split_long_tasks_loop [OF assms(1)] obtain new olpi where
    l: "split_loop B th ch 0 [] Map.empty ts = Inr (new, olpi)" and o: "out = assign_ids 0 new"
    by auto
  have "\<forall>t\<in>set new. \<exists>h. map_of t ''estimated_hours'' = Some (PFloat h) \<and> 1 \<le> h"
    by (rule split_loop_all [OF l]) (auto dest: split_task_hours)
  with assms(2) o show ?thesis by (auto dest!: assign_ids_set)
qed


subsection \<open>Runs of the splitter\<close>

lemmas split_eval =
  split_long_tasks_def split_task_def effective_hours_def example_task_def get_or_def
  py_float_def deps_to_iterate_def index_list_def round1_def round_half_even_def Let_def
  split_parts_def py_format_def str_text_def chunk_view_def str_nat.simps digit_char_def
  numeral_eq_Suc

lemma split_review:
  "split_long_tasks B [example_task ''Review'' (1 / 2) []] 24 8 =
     Inr [[(''title'', PStr ''Review''), (''estimated_hours'', PFloat 1),
           (''dependencies'', PList []), (''id'', PInt 0)]]"
  by (simp add: split_eval)


lemma split_remainder:
  "map_sum id (map chunk_view) (split_long_tasks B [example_task ''Build'' (49 / 2) []] 24 8) =
     Inr [(Some (PStr ''Build (Part 1 of 4)''), Some (PFloat 8), Some (PList [])),
          (Some (PStr ''Build (Part 2 of 4)''), Some (PFloat 8), Some (PList [PInt 0])),
          (Some (PStr ''Build (Part 3 of 4)''), Some (PFloat 8), Some (PList [PInt 1])),
          (Some (PStr ''Build (Part 4 of 4)''), Some (PFloat 1), Some (PList [PInt 2]))]"
  by (simp add: split_eval)

text \<open>
  Claim C10. Every task that the splitter puts out has \<open>estimated_hours \<ge> 1.0\<close>, for any
  threshold and chunk size: a task of 0.5 hours comes out with 1.0 hours, and the 0.5-hour
  remainder of a 24.5-hour task comes out as a chunk of 1.0 hours, so the total of the plan
  grows (0.5 to 1.0 hours in the first run, 24.5 to 25 in the second). In
  \<open>generate_task_plan\<close> the splitter runs after the last compliance check.
\<close>

theorem split_hours_at_least_one:
  "(split_long_tasks B ts th ch = Inr out \<longrightarrow>
      (\<forall>t\<in>set out. \<exists>h. map_of t ''estimated_hours'' = Some (PFloat h) \<and> 1 \<le> h))
   \<and> map_sum id (map chunk_view) (split_long_tasks B [example_task ''Review'' (1 / 2) []] 24 8)
       = Inr [(Some (PStr ''Review''), Some (PFloat 1), Some (PList []))]
   \<and> sum_estimated_hours [example_task ''Review'' (1 / 2) []] = Inr (1 / 2)
   \<and> ebind (split_long_tasks B [example_task ''Review'' (1 / 2) []] 24 8) sum_estimated_hours
       = Inr 1
   \<and> map_sum id (map chunk_view) (split_long_tasks B [example_task ''Build'' (49 / 2) []] 24 8)
       = Inr [(Some (PStr ''Build (Part 1 of 4)''), Some (PFloat 8), Some (PList [])),
              (Some (PStr ''Build (Part 2 of 4)''), Some (PFloat 8), Some (PList [PInt 0])),
              (Some (PStr ''Build (Part 3 of 4)''), Some (PFloat 8), Some (PList [PInt 1])),
              (Some (PStr ''Build (Part 4 of 4)''), Some (PFloat 1), Some (PList [PInt 2]))]"
proof (intro conjI impI ballI)
  fix t assume "split_long_tasks B ts th ch = Inr out" "t \<in> set out"
  then show "\<exists>h. map_of t ''estimated_hours'' = Some (PFloat h) \<and> 1 \<le> h"
    by (rule split_long_tasks_hours)
next
  show "map_sum id (map chunk_view) (split_long_tasks B [example_task ''Review'' (1 / 2) []] 24 8)
       = Inr [(Some (PStr ''Review''), Some (PFloat 1), Some (PList []))]"
    by (simp add: split_review chunk_view_def)
next
  show "sum_estimated_hours [example_task ''Review'' (1 / 2) []] = Inr (1 / 2)"
    by (simp add: example_task_def get_or_def as_number_def)
next
  show "ebind (split_long_tasks B [example_task ''Review'' (1 / 2) []] 24 8) sum_estimated_hours
       = Inr 1"
    by (simp add: split_review get_or_def as_number_def)
qed (rule split_remainder)

theorem split_hours_at_least_one_witness:
  "split_long_tasks plain_builtins [example_task ''Review'' (1 / 2) []] 24 8 =
     Inr [[(''title'', PStr ''Review''), (''estimated_hours'', PFloat 1),
           (''dependencies'', PList []), (''id'', PInt 0)]]
   \<and> (\<exists>h. map_of [(''title'', PStr ''Review''), (''estimated_hours'', PFloat 1),
                     (''dependencies'', PList []), (''id'', PInt 0)] ''estimated_hours''
              = Some (PFloat h) \<and> 1 \<le> h)"
  using split_hours_at_least_one [of plain_builtins "[example_task ''Review'' (1 / 2) []]" 24 8
      "[[(''title'', PStr ''Review''), (''estimated_hours'', PFloat 1),
         (''dependencies'', PList []), (''id'', PInt 0)]]"]
    split_review [of plain_builtins]
  by simp



subsection \<open>The first loop of the validator\<close>

lemma fix_title_other: "k \<noteq> ''title'' \<Longrightarrow> map_of (fix_title i t) k = map_of t k"
  by (simp add: fix_title_def split: option.splits)

lemma fix_description_other:
  "k \<noteq> ''description'' \<Longrightarrow> map_of (fix_description t) k = map_of t k"
  by (simp add: fix_description_def split: option.splits)

lemma fix_estimated_hours_other:
  "fix_estimated_hours B t = Inr t' \<Longrightarrow> k \<noteq> ''estimated_hours'' \<Longrightarrow> map_of t' k = map_of t k"
  by (auto simp: fix_estimated_hours_def Let_def split: sum.splits option.splits if_splits)

lemma fix_priority_other: "k \<noteq> ''priority'' \<Longrightarrow> map_of (fix_priority t) k = map_of t k"
  by (simp add: fix_priority_def split: option.splits)

lemma fix_complexity_level_other:
  "k \<noteq> ''complexity_level'' \<Longrightarrow> map_of (fix_complexity_level B t) k = map_of t k"
  by (simp add: fix_complexity_level_def Let_def split: option.splits)

lemma fix_task_type_other:
  "k \<noteq> ''task_type'' \<Longrightarrow> map_of (fix_task_type B t) k = map_of t k"
  by (simp add: fix_task_type_def Let_def split: option.splits)

lemma fix_dependencies_other:
  "fix_dependencies i t = Inr t' \<Longrightarrow> k \<noteq> ''dependencies'' \<Longrightarrow> map_of t' k = map_of t k"
  by (auto simp: fix_dependencies_def split: sum.splits option.splits)

lemma fix_title_ok: "case map_of (fix_title i t) ''title'' of None \<Rightarrow> False | Some v \<Rightarrow> truthy v"
  by (simp add: fix_title_def split: option.splits)

lemma fix_description_ok:
  "case map_of (fix_description t) ''description'' of None \<Rightarrow> False | Some v \<Rightarrow> truthy v"
  by (simp add: fix_description_def split: option.splits)

lemma round_half_even_of_int [simp]: "round_half_even (rat_of_int k) = k"
  by (simp add: round_half_even_def)

lemma round1_idem [simp]: "round1 (round1 x) = round1 x"
  by (simp add: round1_def)

lemma py_round1_idem: "py_round1 v = Inr w \<Longrightarrow> py_num w \<noteq> None \<and> py_round1 w = Inr w"
  by (cases v) (auto split: if_splits)

lemma fix_estimated_hours_ok:
  "fix_estimated_hours B t = Inr t' \<Longrightarrow>
   case map_of t' ''estimated_hours'' of
     None \<Rightarrow> False
   | Some v \<Rightarrow> py_num v \<noteq> None \<and> py_round1 v = Inr v"
  by (auto simp: fix_estimated_hours_def Let_def split: sum.splits option.splits if_splits
      dest: py_round1_idem)

lemma fix_priority_ok:
  "case map_of (fix_priority t) ''priority'' of
     None \<Rightarrow> False
   | Some v \<Rightarrow> v \<in> set [PStr ''high'', PStr ''medium'', PStr ''low'']"
  by (auto simp: fix_priority_def split: option.splits)

lemma if_mem: "x \<in> S \<Longrightarrow> y \<in> S \<Longrightarrow> (if c then x else y) \<in> S"
  by simp

lemma detect_task_type_strings:
  "detect_task_type B a b \<in> {''research'', ''design'', ''implementation'', ''testing'',
                               ''deployment'', ''documentation''}"
  unfolding detect_task_type_def Let_def by (intro if_mem) simp_all

lemma detect_complexity_level_strings:
  "detect_complexity_level B a b \<in> {''simple'', ''moderate'', ''complex'', ''expert''}"
  unfolding detect_complexity_level_def Let_def by (intro if_mem) simp_all

lemma detect_task_type_range:
  "PStr (detect_task_type B a b) \<in> set [PStr ''research'', PStr ''design'', PStr ''implementation'',
                          PStr ''testing'', PStr ''deployment'', PStr ''documentation'']"
  using detect_task_type_strings [of B a b] by simp

lemma detect_complexity_level_range:
  "PStr (detect_complexity_level B a b) \<in> set [PStr ''simple'', PStr ''moderate'', PStr ''complex'', PStr ''expert'']"
  using detect_complexity_level_strings [of B a b] by simp

lemma fix_field_ok:
  "P d \<Longrightarrow>
   (case map_of (case map_of t k of
                   None \<Rightarrow> AList.update k d t
                 | Some v \<Rightarrow> if \<not> P v then AList.update k d t else t) k of
      None \<Rightarrow> False
    | Some v \<Rightarrow> P v)"
  by (simp split: option.splits)

lemma fix_complexity_level_ok:
  "case map_of (fix_complexity_level B t) ''complexity_level'' of
     None \<Rightarrow> False
   | Some v \<Rightarrow> v \<in> set [PStr ''simple'', PStr ''moderate'', PStr ''complex'', PStr ''expert'']"
  unfolding fix_complexity_level_def Let_def
  by (rule fix_field_ok
        [where P = "\<lambda>v. v \<in> set [PStr ''simple'', PStr ''moderate'', PStr ''complex'',
                                      PStr ''expert'']"])
     (rule detect_complexity_level_range)

lemma fix_task_type_ok:
  "case map_of (fix_task_type B t) ''task_type'' of
     None \<Rightarrow> False
   | Some v \<Rightarrow> v \<in> set [PStr ''research'', PStr ''design'', PStr ''implementation'',
                          PStr ''testing'', PStr ''deployment'', PStr ''documentation'']"
  unfolding fix_task_type_def Let_def
  by (rule fix_field_ok
        [where P = "\<lambda>v. v \<in> set [PStr ''research'', PStr ''design'', PStr ''implementation'',
                                      PStr ''testing'', PStr ''deployment'',
                                      PStr ''documentation'']"])
     (rule detect_task_type_range)

lemma filter_dependencies_valid:
  "filter_dependencies i v = Inr deps \<Longrightarrow> list_all (valid_dep i) deps"
  by (cases v) (auto simp: list_all_iff)

lemma fix_dependencies_ok: "fix_dependencies i t = Inr t' \<Longrightarrow> dependencies_before i t'"
  by (auto simp: fix_dependencies_def dependencies_before_def valid_dep_def list_all_iff
      split: sum.splits option.splits dest!: filter_dependencies_valid)

lemma fix_task_fixed:
  assumes "fix_task B i t = Inr t'"
  shows "fixed_task i t'"
proof -
  from assms obtain t4 where
    h: "fix_estimated_hours B (fix_description (fix_title i t)) = Inr t4" and
    d: "fix_dependencies i (fix_task_type B (fix_complexity_level B (fix_priority t4))) = Inr t'"
    by (auto simp: fix_task_def split: sum.splits)
  have "map_of t' ''title'' = map_of (fix_title i t) ''title''"
    by (simp add: fix_dependencies_other [OF d] fix_task_type_other fix_complexity_level_other
        fix_priority_other fix_estimated_hours_other [OF h] fix_description_other)
  moreover have "map_of t' ''description'' = map_of (fix_description (fix_title i t)) ''description''"
    by (simp add: fix_dependencies_other [OF d] fix_task_type_other fix_complexity_level_other
        fix_priority_other fix_estimated_hours_other [OF h])
  moreover have "map_of t' ''estimated_hours'' = map_of t4 ''estimated_hours''"
    by (simp add: fix_dependencies_other [OF d] fix_task_type_other fix_complexity_level_other
        fix_priority_other)
  moreover have "map_of t' ''priority'' = map_of (fix_priority t4) ''priority''"
    by (simp add: fix_dependencies_other [OF d] fix_task_type_other fix_complexity_level_other)
  moreover have "map_of t' ''complexity_level''
      = map_of (fix_complexity_level B (fix_priority t4)) ''complexity_level''"
    by (simp add: fix_dependencies_other [OF d] fix_task_type_other)
  moreover have "map_of t' ''task_type''
      = map_of (fix_task_type B (fix_complexity_level B (fix_priority t4))) ''task_type''"
    by (simp add: fix_dependencies_other [OF d])
  ultimately show ?thesis
    unfolding fixed_task_def
    using fix_title_ok [of i t] fix_description_ok [of "fix_title i t"]
      fix_estimated_hours_ok [OF h] fix_priority_ok [of t4]
      fix_complexity_level_ok [of B "fix_priority t4"]
      fix_task_type_ok [of B "fix_complexity_level B (fix_priority t4)"]
      fix_dependencies_ok [OF d]
    by simp
qed


lemma update_same: "map_of t k = Some v \<Longrightarrow> AList.update k v t = t"
  by (rule update_triv)

lemma fix_title_idem: "fixed_task i t \<Longrightarrow> fix_title i t = t"
  by (auto simp: fixed_task_def fix_title_def split: option.splits)

lemma fix_description_idem: "fixed_task i t \<Longrightarrow> fix_description t = t"
  by (auto simp: fixed_task_def fix_description_def split: option.splits)

lemma fix_field_idem:
  "(case map_of t k of None \<Rightarrow> False | Some v \<Rightarrow> P v) \<Longrightarrow>
   (case map_of t k of
      None \<Rightarrow> AList.update k d t
    | Some v \<Rightarrow> if \<not> P v then AList.update k d t else t) = t"
  by (simp split: option.splits)

lemma fix_priority_idem: "fixed_task i t \<Longrightarrow> fix_priority t = t"
  unfolding fixed_task_def fix_priority_def
  by (elim conjE, rule fix_field_idem [where P = "\<lambda>v. v \<in> set [PStr ''high'', PStr ''medium'', PStr ''low'']"])

lemma fix_complexity_level_idem: "fixed_task i t \<Longrightarrow> fix_complexity_level B t = t"
  unfolding fixed_task_def fix_complexity_level_def Let_def
  by (elim conjE, rule fix_field_idem
        [where P = "\<lambda>v. v \<in> set [PStr ''simple'', PStr ''moderate'', PStr ''complex'',
                                      PStr ''expert'']"])

lemma fix_task_type_idem: "fixed_task i t \<Longrightarrow> fix_task_type B t = t"
  unfolding fixed_task_def fix_task_type_def Let_def
  by (elim conjE, rule fix_field_idem
        [where P = "\<lambda>v. v \<in> set [PStr ''research'', PStr ''design'', PStr ''implementation'',
                                      PStr ''testing'', PStr ''deployment'',
                                      PStr ''documentation'']"])

lemma py_num_not_str: "py_num v \<noteq> None \<Longrightarrow> str_text B v = None"
  by (cases v) (simp_all add: str_text_def)

lemma fix_estimated_hours_idem:
  assumes "fixed_task i t" and "positive_hours t"
  shows "fix_estimated_hours B t = Inr t"
proof -
  from assms obtain v r where
    v: "map_of t ''estimated_hours'' = Some v" and n: "py_num v = Some r" and p: "0 < r"
    and rd: "py_round1 v = Inr v"
    by (auto simp: fixed_task_def positive_hours_def split: option.splits)
  have s: "str_text B v = None" using n by (simp add: py_num_not_str)
  show ?thesis
    using v n p rd s by (simp add: fix_estimated_hours_def py_le_zero_def update_same)
qed

lemma filter_valid_deps: "list_all (valid_dep i) deps \<Longrightarrow> filter (valid_dep i) deps = deps"
  by (induction deps) simp_all

lemma dependencies_before_valid_dep:
  "dependencies_before i t =
     (case map_of t ''dependencies'' of
        Some (PList deps) \<Rightarrow> list_all (valid_dep i) deps
      | _ \<Rightarrow> False)"
proof -
  have e: "(\<lambda>d. case int_value d of None \<Rightarrow> False | Some n \<Rightarrow> 0 \<le> n \<and> n < int i) = valid_dep i"
    by (rule ext) (simp add: valid_dep_def)
  show ?thesis unfolding dependencies_before_def e by (rule refl)
qed

lemma fix_dependencies_idem: "fixed_task i t \<Longrightarrow> fix_dependencies i t = Inr t"
proof -
  assume "fixed_task i t"
  then have "dependencies_before i t" by (simp add: fixed_task_def)
  then obtain deps where d: "map_of t ''dependencies'' = Some (PList deps)"
    and a: "list_all (valid_dep i) deps"
    by (auto simp: dependencies_before_valid_dep split: option.splits pyval.splits)
  show ?thesis using d by (simp add: fix_dependencies_def filter_valid_deps [OF a] update_same)
qed

lemma fix_task_idem:
  assumes "fixed_task i t" and "positive_hours t"
  shows "fix_task B i t = Inr t"
  using assms
  by (simp add: fix_task_def fix_title_idem fix_description_idem fix_estimated_hours_idem
      fix_priority_idem fix_complexity_level_idem fix_task_type_idem fix_dependencies_idem)

lemma fix_tasks_fixed:
  "fix_tasks B i ts = Inr fixed \<Longrightarrow>
   length fixed = length ts \<and> (\<forall>j<length fixed. fixed_task (i + j) (fixed ! j))"
proof (induction ts arbitrary: i fixed)
  case Nil
  then show ?case by simp
next
  case (Cons t ts)
  from Cons.prems obtain t' ts' where
    a: "fix_task B i t = Inr t'" and b: "fix_tasks B (Suc i) ts = Inr ts'" and c: "fixed = t' # ts'"
    by (auto split: sum.splits)
  from Cons.IH [OF b] have l: "length ts' = length ts"
    and f: "\<forall>j<length ts'. fixed_task (Suc i + j) (ts' ! j)" by simp_all
  have "fixed_task (i + j) (fixed ! j)" if "j < length fixed" for j
  proof (cases j)
    case 0
    then show ?thesis using c fix_task_fixed [OF a] by simp
  next
    case (Suc j')
    then show ?thesis using c f that by simp
  qed
  then show ?case using c l by simp
qed

lemma fix_tasks_idem:
  "\<forall>j<length ts. fixed_task (i + j) (ts ! j) \<and> positive_hours (ts ! j) \<Longrightarrow>
   fix_tasks B i ts = Inr ts"
proof (induction ts arbitrary: i)
  case Nil
  then show ?case by simp
next
  case (Cons t ts)
  from Cons.prems have h: "fixed_task i t" "positive_hours t" by auto
  have "\<forall>j<length ts. fixed_task (Suc i + j) (ts ! j) \<and> positive_hours (ts ! j)"
    using Cons.prems by auto
  from Cons.IH [OF this] fix_task_idem [OF h] show ?case by simp
qed

subsection \<open>The priority pass of the validator\<close>

lemma same_but_priority_refl [simp]: "same_but_priority t t"
  by (simp add: same_but_priority_def)

lemma same_but_priority_set: "same_but_priority t t' \<Longrightarrow> same_but_priority t (set_priority p t')"
  by (simp add: same_but_priority_def set_priority_def)

lemma fixed_task_set_priority:
  assumes "fixed_task i t" and "p \<in> {''high'', ''medium'', ''low''}"
  shows "fixed_task i (set_priority p t)"
proof -
  have "PStr p \<in> set [PStr ''high'', PStr ''medium'', PStr ''low'']" using assms(2) by auto
  moreover have "dependencies_before i (set_priority p t) = dependencies_before i t"
    by (simp add: set_priority_def dependencies_before_update_other)
  ultimately show ?thesis using assms(1)
    unfolding fixed_task_def set_priority_def by (simp only: map_of_update) simp
qed

lemma positive_hours_set_priority [simp]: "positive_hours (set_priority p t) = positive_hours t"
  by (simp add: positive_hours_def set_priority_def)

lemma pass_invariant_refl [simp]: "pass_invariant xs xs"
  by (simp add: pass_invariant_def)

lemma pass_invariant_update:
  assumes "pass_invariant xs ys" and "p \<in> {''high'', ''medium'', ''low''}"
  shows "pass_invariant xs (ys[i := set_priority p (ys ! i)])"
proof -
  from assms(1) have l: "length ys = length xs"
    and a: "\<And>j. j < length xs \<Longrightarrow> same_but_priority (xs ! j) (ys ! j)"
    and b: "\<And>j k. j < length xs \<Longrightarrow> fixed_task k (xs ! j) \<Longrightarrow> fixed_task k (ys ! j)"
    and c: "\<And>j. j < length xs \<Longrightarrow> positive_hours (ys ! j) = positive_hours (xs ! j)"
    by (simp_all add: pass_invariant_def)
  have "same_but_priority (xs ! j) (ys[i := set_priority p (ys ! i)] ! j)
        \<and> (\<forall>k. fixed_task k (xs ! j) \<longrightarrow> fixed_task k (ys[i := set_priority p (ys ! i)] ! j))
        \<and> positive_hours (ys[i := set_priority p (ys ! i)] ! j) = positive_hours (xs ! j)"
    if j: "j < length xs" for j
  proof (cases "j = i")
    case True
    with j l have "ys[i := set_priority p (ys ! i)] ! j = set_priority p (ys ! j)" by simp
    then show ?thesis
      using a [OF j] b [OF j] c [OF j] assms(2)
      by (simp add: same_but_priority_set fixed_task_set_priority)
  next
    case False
    then have "ys[i := set_priority p (ys ! i)] ! j = ys ! j" by simp
    then show ?thesis using a [OF j] b [OF j] c [OF j] by simp
  qed
  then show ?thesis using l by (simp add: pass_invariant_def)
qed

lemma foldl_demote_invariant:
  "pass_invariant xs ys \<Longrightarrow>
   pass_invariant xs (foldl (\<lambda>acc i. acc[i := set_priority ''medium'' (acc ! i)]) ys is)"
  by (induction "is" arbitrary: ys) (simp_all add: pass_invariant_update)

lemma demote_high_invariant: "pass_invariant xs (demote_high xs)"
  unfolding demote_high_def by (rule foldl_demote_invariant) simp

lemma demote_medium_at_invariant:
  "demote_medium_at B is ys = Inr zs \<Longrightarrow> pass_invariant xs ys \<Longrightarrow> pass_invariant xs zs"
proof (induction "is" arbitrary: ys)
  case Nil
  then show ?case by simp
next
  case (Cons i "is")
  from Cons.prems(1) obtain kw where
    r: "demote_medium_at B is (if kw then ys[i := set_priority ''low'' (ys ! i)] else ys) = Inr zs"
    by (auto split: sum.splits)
  have "pass_invariant xs (if kw then ys[i := set_priority ''low'' (ys ! i)] else ys)"
    using Cons.prems(2) by (simp add: pass_invariant_update)
  from Cons.IH [OF r this] show ?case .
qed

lemma priority_distribution_invariant:
  assumes "priority_distribution B fixed = Inr out"
  shows "pass_invariant fixed out"
proof -
  have h: "pass_invariant fixed (demote_high fixed)" by (rule demote_high_invariant)
  let ?fixed1 = "if (rat_of_nat (count_priority ''high'' fixed) / rat_of_nat (length fixed)) * 100 > 40
                 then demote_high fixed else fixed"
  have i1: "pass_invariant fixed ?fixed1" using h by simp
  from assms have "demote_medium B ?fixed1 = Inr out \<or> out = ?fixed1"
    by (simp add: priority_distribution_def Let_def split: if_splits)
  then show ?thesis
  proof
    assume "demote_medium B ?fixed1 = Inr out"
    then show ?thesis
      unfolding demote_medium_def Let_def by (rule demote_medium_at_invariant) (rule i1)
  next
    assume "out = ?fixed1"
    then show ?thesis using i1 by simp
  qed
qed

lemma validate_and_fix_tasks_fixed:
  assumes "validate_and_fix_tasks B raw = Inr out"
  shows "\<forall>j<length out. fixed_task j (out ! j)"
proof -
  from assms obtain fixed where
    f: "fix_tasks B 0 raw = Inr fixed" and p: "priority_distribution B fixed = Inr out"
    by (auto simp: validate_and_fix_tasks_def split: sum.splits)
  from fix_tasks_fixed [OF f] have "\<forall>j<length fixed. fixed_task j (fixed ! j)" by simp
  with priority_distribution_invariant [OF p] show ?thesis
    by (auto simp: pass_invariant_def)
qed

subsection \<open>Evaluating the model on concrete inputs\<close>

text \<open>
  The right-hand side of a bind and the body of a let are left alone until the value
  they depend on is known.
\<close>


lemma ebind_weak_cong: "m = m' \<Longrightarrow> ebind m f = ebind m' f"
  by simp

lemmas run_cong = ebind_weak_cong let_weak_cong

lemmas validator_run =
  validate_and_fix_tasks_def fix_task_def fix_title_def fix_description_def
  fix_estimated_hours_def fix_priority_def fix_complexity_level_def fix_task_type_def
  fix_dependencies_def valid_dep_def py_le_zero_def item_def detect_task_type_def
  detect_complexity_level_def py_format_def str_text_def lower_def any_in_def
  priority_distribution_def valid_priority_def has_priority_def count_priority_def
  indices_with_priority_def demote_high_def demote_medium_def set_priority_def
  title_has_keyword_def py_lower_def round1_def round_half_even_def Let_def str_nat.simps
  digit_char_def plain_builtins_def

lemmas estimator_run =
  validate_and_estimate_def apply_practical_time_adjustments_def constraint_factors_def
  get_or_def as_number_def get_technical_stack_familiarity_multiplier_def adjust_task_def
  table_get_def get_task_type_overhead_def round_to_practical_increment_def

lemmas splitter_run =
  split_long_tasks_def split_task_def effective_hours_def get_or_def py_float_def
  deps_to_iterate_def index_list_def split_parts_def numeral_eq_Suc



subsection \<open>Dependencies precede their task\<close>

text \<open>
  Claim C1. When the validator returns, the dependencies of the task at index \<open>i\<close> are a
  list whose members are integers \<open>d\<close> with \<open>0 \<le> d < i\<close>: forward, self, negative and
  non-integer references are gone. (A Python \<^verbatim>\<open>bool\<close> passes \<^verbatim>\<open>isinstance(dep, int)\<close> and
  counts as the integer 0 or 1.) The splitter keeps the property: whenever it returns, with
  any threshold and chunk size, every dependency in its output is an index below the
  position of the task that holds it.
\<close>

theorem dependencies_precede_their_task:
  assumes "validate_and_fix_tasks B raw = Inr validated"
  shows "(\<forall>i<length validated. dependencies_before i (validated ! i))
         \<and> (\<forall>th ch out. split_long_tasks B validated th ch = Inr out \<longrightarrow>
               (\<forall>j<length out. dependencies_before j (out ! j)))"
proof
  show "\<forall>i<length validated. dependencies_before i (validated ! i)"
    using validate_and_fix_tasks_fixed [OF assms] by (simp add: fixed_task_def)
next
  show "\<forall>th ch out. split_long_tasks B validated th ch = Inr out \<longrightarrow>
          (\<forall>j<length out. dependencies_before j (out ! j))"
    using split_long_tasks_dependencies by blast
qed

lemma validate_two_tasks:
  "validate_and_fix_tasks plain_builtins two_raw_tasks = Inr two_validated_tasks"
  by (simp add: two_raw_tasks_def two_validated_tasks_def validator_run cong: run_cong)

lemma split_two_tasks:
  "split_long_tasks plain_builtins two_validated_tasks 24 8 = Inr two_split_tasks"
  by (simp add: two_validated_tasks_def two_split_tasks_def validator_run splitter_run
      cong: run_cong)

theorem dependencies_precede_their_task_witness:
  "validate_and_fix_tasks plain_builtins two_raw_tasks = Inr two_validated_tasks
   \<and> dependencies_before 0 (two_validated_tasks ! 0)
   \<and> dependencies_before 1 (two_validated_tasks ! 1)
   \<and> split_long_tasks plain_builtins two_validated_tasks 24 8 = Inr two_split_tasks
   \<and> dependencies_before 3 (two_split_tasks ! 3)
   \<and> dependencies_before 4 (two_split_tasks ! 4)"
proof -
  have v: "length two_validated_tasks = 2" by (simp add: two_validated_tasks_def)
  have s: "length two_split_tasks = 5" by (simp add: two_split_tasks_def)
  note t = dependencies_precede_their_task [OF validate_two_tasks]
  have "dependencies_before 0 (two_validated_tasks ! 0)"
    "dependencies_before 1 (two_validated_tasks ! 1)"
    using t v by simp_all
  moreover have "dependencies_before 3 (two_split_tasks ! 3)"
    "dependencies_before 4 (two_split_tasks ! 4)"
    using t split_two_tasks s by simp_all
  ultimately show ?thesis using validate_two_tasks split_two_tasks by simp
qed

text \<open>
  Claim C7, as stated: running the validator and the effort re-estimation on their own
  output changes nothing. It does: a task of 4 hours is estimated at 8 hours by the first
  run (4 times 1.5 for moderate complexity, plus 2 hours for an implementation task); the
  second run takes the 8 hours as its base and arrives at 14, and records 8 as
  \<^verbatim>\<open>base_hours\<close>.
\<close>

theorem estimate_twice_differs:
  "validate_and_estimate plain_builtins None one_raw_task = Inr estimated_once
   \<and> validate_and_estimate plain_builtins None estimated_once = Inr estimated_twice
   \<and> estimated_twice \<noteq> estimated_once"
  by (simp add: one_raw_task_def estimated_once_def estimated_twice_def validator_run
      estimator_run cong: run_cong)

text \<open>
  The plan-level priority pass is not idempotent either. Of eleven medium tasks titled
  \<^verbatim>\<open>Test\<close>, except for the tenth, the first run demotes the last one to low, which is
  under 10 percent, so a second run looks at the last two medium tasks again and demotes
  the ninth. And hours that round to 0.0 are replaced by 4.0 in a second run.
\<close>

lemma validate_twice_demotes_again:
  "map_sum id (map (\<lambda>t. map_of t ''priority''))
     (validate_and_fix_tasks plain_builtins
        (replicate 9 (titled_task ''Test'') @ [titled_task ''Build'', titled_task ''Test'']))
   = Inr (replicate 10 (Some (PStr ''medium'')) @ [Some (PStr ''low'')])
   \<and> map_sum id (map (\<lambda>t. map_of t ''priority''))
     (ebind (validate_and_fix_tasks plain_builtins
               (replicate 9 (titled_task ''Test'') @ [titled_task ''Build'', titled_task ''Test'']))
        (validate_and_fix_tasks plain_builtins))
   = Inr (replicate 8 (Some (PStr ''medium''))
          @ [Some (PStr ''low''), Some (PStr ''medium''), Some (PStr ''low'')])"
  by code_simp

lemma validate_twice_resets_zero_hours:
  "map_sum id (map (\<lambda>t. map_of t ''estimated_hours''))
     (validate_and_fix_tasks plain_builtins
        [[(''title'', PStr ''Sketch''), (''estimated_hours'', PFloat (4 / 100))]])
   = Inr [Some (PFloat 0)]
   \<and> map_sum id (map (\<lambda>t. map_of t ''estimated_hours''))
     (ebind (validate_and_fix_tasks plain_builtins
               [[(''title'', PStr ''Sketch''), (''estimated_hours'', PFloat (4 / 100))]])
        (validate_and_fix_tasks plain_builtins))
   = Inr [Some (PFloat 4)]"
  by (simp add: validator_run cong: run_cong)

text \<open>
  Claim C7, amended. What is idempotent is the per-task normalisation of the validator:
  on the output of a validation pass in which every task has hours above zero, running
  the first loop of the validator again returns the same sequence, field for field.
\<close>

theorem normalisation_is_idempotent:
  assumes "validate_and_fix_tasks B raw = Inr validated"
    and "list_all positive_hours validated"
  shows "fix_tasks B 0 validated = Inr validated"
proof (rule fix_tasks_idem)
  show "\<forall>j<length validated. fixed_task (0 + j) (validated ! j)
          \<and> positive_hours (validated ! j)"
    using validate_and_fix_tasks_fixed [OF assms(1)] assms(2) by (simp add: list_all_length)
qed

lemma validate_one_task:
  "validate_and_fix_tasks plain_builtins one_raw_task = Inr validated_once"
  by (simp add: one_raw_task_def validated_once_def validator_run cong: run_cong)

theorem normalisation_is_idempotent_witness:
  "validate_and_fix_tasks plain_builtins one_raw_task = Inr validated_once
   \<and> list_all positive_hours validated_once
   \<and> fix_tasks plain_builtins 0 validated_once = Inr validated_once"
proof -
  have p: "list_all positive_hours validated_once"
    by (simp add: validated_once_def positive_hours_def)
  from normalisation_is_idempotent [OF validate_one_task p] validate_one_task p
  show ?thesis by blast
qed

subsection \<open>The working calendar\<close>

lemma day_of_split: "0 \<le> x \<Longrightarrow> x < 24 \<Longrightarrow> day_of (24 * rat_of_int d + x) = d"
  unfolding day_of_def by (rule floor_unique) (simp_all add: field_simps)

lemma day_of_at_nine [simp]: "day_of (at_nine t) = day_of t"
  unfolding at_nine_def by (rule day_of_split) simp_all

lemma hour_of_day_at_nine [simp]: "hour_of_day (at_nine t) = 9"
  by (simp add: hour_of_day_def) (simp add: at_nine_def)

lemma weekday_at_nine [simp]: "weekday (at_nine t) = weekday t"
  by (simp add: weekday_def)








subsection \<open>Start and end times in the scheduler\<close>

lemma index_end_in: "index_end ends n = Inr e \<Longrightarrow> e \<in> set ends"
  by (auto simp: index_end_def Let_def split: if_splits)

lemma collect_dep_end_times_subset:
  "collect_dep_end_times i ends deps = Inr dts \<Longrightarrow> set dts \<subseteq> set ends"
proof (induction deps arbitrary: dts)
  case Nil
  then show ?case by simp
next
  case (Cons d deps)
  then show ?case
    by (auto simp: ebind_eq_Inr split: option.splits if_splits dest: index_end_in)
qed

lemma dep_end_times_subset: "dep_end_times i ends v = Inr dts \<Longrightarrow> set dts \<subseteq> set ends"
  by (cases v) (auto simp: dep_end_times_def dest: collect_dep_end_times_subset)

lemma max_list_in: "xs \<noteq> [] \<Longrightarrow> max_list xs \<in> set xs"
  by (induction xs rule: max_list.induct) (auto simp: max_def)

lemma max_list_ge: "x \<in> set xs \<Longrightarrow> x \<le> max_list xs"
  by (induction xs rule: max_list.induct) (auto simp: max_def)

lemma first_task_start_time_cases:
  assumes "first_task_start_time cd i ends task = Inr s"
  shows "s = cd \<or> s \<in> set ends"
proof -
  have l: "ends \<noteq> [] \<Longrightarrow> last ends \<in> set ends" by simp
  show ?thesis
  proof (cases "truthy (get_or task ''dependencies'' PNone)")
    case False
    with assms l show ?thesis by (auto simp: first_task_start_time_def Let_def split: if_splits)
  next
    case True
    with assms obtain dts where
      d: "dep_end_times i ends (get_or task ''dependencies'' PNone) = Inr dts"
      and r: "s = (if dts \<noteq> [] then (if ends \<noteq> [] then max (max_list dts) (last ends)
                                         else max_list dts) else cd)"
      by (auto simp: first_task_start_time_def Let_def ebind_eq_Inr split: if_splits)
    show ?thesis
    proof (cases "dts = []")
      case True
      with r show ?thesis by simp
    next
      case False
      then have "max_list dts \<in> set ends" using max_list_in dep_end_times_subset [OF d] by blast
      with r False l show ?thesis by (auto simp: max_def)
    qed
  qed
qed





lemma schedule_loop_first:
  "schedule_loop B cd i [] (task # ts) = Inr out \<Longrightarrow>
   out \<noteq> [] \<and> map_of (hd out) ''start_time'' = Some (PIso cd)"
  by (auto simp: ebind_eq_Inr dest!: first_task_start_time_cases)


lemma schedule_loop_length: "schedule_loop B cd i ends ts = Inr out \<Longrightarrow> length out = length ts"
  by (induction ts arbitrary: i ends out) (auto simp: ebind_eq_Inr)


lemma map_tasks_length: "map_tasks f ts = Inr out \<Longrightarrow> length out = length ts"
  by (induction ts arbitrary: out) (auto simp: ebind_eq_Inr)

lemma read_iso_start: "map_of t k = Some (PIso s) \<Longrightarrow> read_iso t k = Inr s"
  by (simp add: read_iso_def)

lemma calculate_deadlines_cases:
  assumes "calculate_deadlines B ts start tf = Inr out"
  shows "schedule_loop B start 0 [] ts = Inr out
         \<or> (\<exists>tasks1 tasks2. schedule_loop B start 0 [] ts = Inr tasks1
               \<and> tasks1 \<noteq> []
               \<and> (tasks2 = tasks1 \<or> (\<exists>f. map_tasks (shrink_task f) tasks1 = Inr tasks2))
               \<and> recompute_loop B start 0 [] tasks2 = Inr out)"
proof -
  from assms obtain tasks1 where
    l: "schedule_loop B start 0 [] ts = Inr tasks1"
    by (auto simp: calculate_deadlines_def ebind_eq_Inr)
  show ?thesis
  proof (cases "tasks1 = []")
    case True
    with assms l show ?thesis by (simp add: calculate_deadlines_def)
  next
    case False
    then obtain task rest where ts: "ts = task # rest"
      using schedule_loop_length [OF l] by (cases ts) auto
    from schedule_loop_first [OF l [unfolded ts]]
    have f: "read_iso (hd tasks1) ''start_time'' = Inr start" by (simp add: read_iso_start)
    from assms l False f show ?thesis
      by (auto simp: calculate_deadlines_def ebind_eq_Inr Let_def split: if_splits)
  qed
qed

subsection \<open>Recorded times and the working calendar\<close>

lemmas calendar_run =
  calculate_task_end_with_working_hours_def to_next_workday_morning_def at_nine_def day_of_def
  weekday_def hour_of_day_def skip_weekend.simps work_loop.simps Let_def

lemmas scheduler_run =
  calculate_deadlines_def first_task_start_time_def recomputed_start_time_def task_end_time_def
  dep_end_times_def index_end_def get_or_def py_float_def read_iso_def timeframe_given_def
  int_value.simps py_num.simps







subsection \<open>Starts wait for the ends of dependencies\<close>

lemma py_num_int_value: "int_value d = Some n \<Longrightarrow> py_num d = Some (rat_of_int n)"
  by (cases d) auto

lemma collect_valid:
  assumes "list_all (valid_dep i) ds" and "length ends = i"
  shows "collect_dep_end_times i ends ds = Inr (map (\<lambda>d. ends ! nat (the (int_value d))) ds)"
  using assms(1)
proof (induction ds)
  case Nil
  then show ?case by simp
next
  case (Cons d ds)
  from Cons.prems obtain n where n: "int_value d = Some n" "0 \<le> n" "n < int i"
    by (auto simp: valid_dep_def split: option.splits)
  have lt: "rat_of_int n < rat_of_nat i"
    using n(3) by (metis of_int_less_iff of_int_of_nat_eq)
  have ie: "index_end ends n = Inr (ends ! nat n)"
    using n assms(2) by (simp add: index_end_def)
  from Cons n lt ie show ?case by (simp add: py_num_int_value)
qed

lemma dependencies_beforeD:
  "dependencies_before i task \<Longrightarrow>
   \<exists>ds. map_of task ''dependencies'' = Some (PList ds) \<and> list_all (valid_dep i) ds"
  by (auto simp: dependencies_before_def valid_dep_def list_all_iff
      split: option.splits pyval.splits)

text \<open>The start that either loop computes is at or after every end it had to wait for.\<close>

lemma gate_from_ends:
  assumes s: "if ds \<noteq> [] then s = max (max_list (map (\<lambda>d. ends ! nat (the (int_value d))) ds))
                                   (last ends)
            else s = (if ends \<noteq> [] then last ends else cd)"
  shows "(\<forall>d\<in>set ds. \<forall>n. int_value d = Some n \<longrightarrow> ends ! nat n \<le> s)
         \<and> (ends \<noteq> [] \<longrightarrow> last ends \<le> s)"
proof (cases "ds = []")
  case True
  with s show ?thesis by simp
next
  case False
  with s have e: "s = max (max_list (map (\<lambda>d. ends ! nat (the (int_value d))) ds)) (last ends)"
    by simp
  have "ends ! nat n \<le> s" if "d \<in> set ds" "int_value d = Some n" for d n
  proof -
    have "ends ! nat n \<in> set (map (\<lambda>d. ends ! nat (the (int_value d))) ds)"
      using that by force
    from max_list_ge [OF this] e show ?thesis by simp
  qed
  then show ?thesis using e by simp
qed

lemma valid_deps_need_ends:
  assumes "list_all (valid_dep i) ds" and "length ends = i" and "ds \<noteq> []"
  shows "ends \<noteq> []"
proof -
  from assms(3) obtain d where "d \<in> set ds" by (cases ds) auto
  with assms(1) have "valid_dep i d" by (simp add: list_all_iff)
  then have "0 < i" by (auto simp: valid_dep_def split: option.splits)
  with assms(2) show ?thesis by auto
qed

lemma truthy_PList [simp]: "truthy (PList ds) = (ds \<noteq> [])"
  by (cases ds) simp_all

lemma first_task_start_time_gate:
  assumes "first_task_start_time cd i ends task = Inr s"
    and "dependencies_before i task" and "length ends = i"
  shows "\<exists>ds. map_of task ''dependencies'' = Some (PList ds)
           \<and> (\<forall>d\<in>set ds. \<exists>n. int_value d = Some n \<and> 0 \<le> n \<and> n < int i \<and> ends ! nat n \<le> s)
           \<and> (ends \<noteq> [] \<longrightarrow> last ends \<le> s)"
proof -
  from dependencies_beforeD [OF assms(2)] obtain ds where
    ds: "map_of task ''dependencies'' = Some (PList ds)" and v: "list_all (valid_dep i) ds"
    by blast
  note ne = valid_deps_need_ends [OF v assms(3)]
  have "if ds \<noteq> [] then s = max (max_list (map (\<lambda>d. ends ! nat (the (int_value d))) ds))
                                   (last ends)
        else s = (if ends \<noteq> [] then last ends else cd)"
    using assms(1) ds ne
    by (auto simp: first_task_start_time_def get_or_def dep_end_times_def
        collect_valid [OF v assms(3)] split: if_splits)
  from gate_from_ends [OF this] ds v show ?thesis
    by (auto simp: list_all_iff valid_dep_def split: option.splits)
qed

lemma recomputed_start_time_gate:
  assumes "recomputed_start_time cd i ends task = Inr s"
    and "dependencies_before i task" and "length ends = i"
  shows "\<exists>ds. map_of task ''dependencies'' = Some (PList ds)
           \<and> (\<forall>d\<in>set ds. \<exists>n. int_value d = Some n \<and> 0 \<le> n \<and> n < int i \<and> ends ! nat n \<le> s)
           \<and> (ends \<noteq> [] \<longrightarrow> last ends \<le> s)"
proof -
  from dependencies_beforeD [OF assms(2)] obtain ds where
    ds: "map_of task ''dependencies'' = Some (PList ds)" and v: "list_all (valid_dep i) ds"
    by blast
  note ne = valid_deps_need_ends [OF v assms(3)]
  have "if ds \<noteq> [] then s = max (max_list (map (\<lambda>d. ends ! nat (the (int_value d))) ds))
                                   (last ends)
        else s = (if ends \<noteq> [] then last ends else cd)"
    using assms(1) ds ne
    by (auto simp: recomputed_start_time_def get_or_def dep_end_times_def
        collect_valid [OF v assms(3)] split: if_splits)
  from gate_from_ends [OF this] ds v show ?thesis
    by (auto simp: list_all_iff valid_dep_def split: option.splits)
qed

text \<open>
  The loops: the task at position \<open>j\<close> of the output starts at or after the recorded ends
  of the earlier positions it depends on, and at or after the end recorded just before it.
\<close>

lemma gate_step:
  assumes t: "map_of t ''start_time'' = Some (PIso s)" "map_of t ''deadline'' = Some (PIso e)"
      "map_of t ''dependencies'' = Some (PList ds)"
    and g: "\<forall>d\<in>set ds. \<exists>n. int_value d = Some n \<and> 0 \<le> n \<and> n < int i \<and> ends ! nat n \<le> s"
      "ends \<noteq> [] \<longrightarrow> last ends \<le> s"
    and l: "length ends = i" "length es = length ts" "length rest = length ts"
    and r: "\<forall>j<length ts. \<exists>s ds. map_of (rest ! j) ''start_time'' = Some (PIso s)
              \<and> map_of (rest ! j) ''deadline'' = Some (PIso (es ! j))
              \<and> map_of (rest ! j) ''dependencies'' = Some (PList ds)
              \<and> (\<forall>d\<in>set ds. \<exists>n. int_value d = Some n \<and> 0 \<le> n \<and> n < int (Suc i + j)
                     \<and> ((ends @ [e]) @ es) ! nat n \<le> s)
              \<and> (0 < Suc i + j \<longrightarrow> ((ends @ [e]) @ es) ! (Suc i + j - 1) \<le> s)"
  shows "\<forall>j<length (task # ts). \<exists>s ds. map_of ((t # rest) ! j) ''start_time'' = Some (PIso s)
              \<and> map_of ((t # rest) ! j) ''deadline'' = Some (PIso ((e # es) ! j))
              \<and> map_of ((t # rest) ! j) ''dependencies'' = Some (PList ds)
              \<and> (\<forall>d\<in>set ds. \<exists>n. int_value d = Some n \<and> 0 \<le> n \<and> n < int (i + j)
                     \<and> (ends @ e # es) ! nat n \<le> s)
              \<and> (0 < i + j \<longrightarrow> (ends @ e # es) ! (i + j - 1) \<le> s)"
proof (intro allI impI)
  fix j
  assume j: "j < length (task # ts)"
  show "\<exists>s ds. map_of ((t # rest) ! j) ''start_time'' = Some (PIso s)
              \<and> map_of ((t # rest) ! j) ''deadline'' = Some (PIso ((e # es) ! j))
              \<and> map_of ((t # rest) ! j) ''dependencies'' = Some (PList ds)
              \<and> (\<forall>d\<in>set ds. \<exists>n. int_value d = Some n \<and> 0 \<le> n \<and> n < int (i + j)
                     \<and> (ends @ e # es) ! nat n \<le> s)
              \<and> (0 < i + j \<longrightarrow> (ends @ e # es) ! (i + j - 1) \<le> s)"
  proof (cases j)
    case 0
    have a: "(ends @ e # es) ! nat n = ends ! nat n" if "0 \<le> n" "n < int i" for n
    proof -
      from that l(1) have "nat n < length ends" by linarith
      then show ?thesis by (simp add: nth_append)
    qed
    have b: "0 < i \<Longrightarrow> (ends @ e # es) ! (i - 1) = last ends"
    proof -
      assume "0 < i"
      with l(1) have "ends \<noteq> []" "i - 1 < length ends" by auto
      then show ?thesis using l(1) by (simp add: nth_append last_conv_nth)
    qed
    have c: "0 < i \<Longrightarrow> ends \<noteq> []" using l(1) by auto
    have "\<forall>d\<in>set ds. \<exists>n. int_value d = Some n \<and> 0 \<le> n \<and> n < int i
            \<and> (ends @ e # es) ! nat n \<le> s"
      using g(1) a by fastforce
    moreover have "0 < i \<longrightarrow> (ends @ e # es) ! (i - 1) \<le> s"
      using g(2) b c by simp
    ultimately show ?thesis using 0 t by simp
  next
    case (Suc k)
    with j have k: "k < length ts" by simp
    from r [rule_format, OF k] show ?thesis using Suc by simp
  qed
qed

lemma schedule_loop_gate:
  assumes "schedule_loop B cd i ends ts = Inr out"
    and "length ends = i"
    and "\<forall>j<length ts. dependencies_before (i + j) (ts ! j)"
  shows "\<exists>es. length es = length ts \<and> length out = length ts
           \<and> (\<forall>j<length ts. \<exists>s ds. map_of (out ! j) ''start_time'' = Some (PIso s)
                 \<and> map_of (out ! j) ''deadline'' = Some (PIso (es ! j))
                 \<and> map_of (out ! j) ''dependencies'' = Some (PList ds)
                 \<and> (\<forall>d\<in>set ds. \<exists>n. int_value d = Some n \<and> 0 \<le> n \<and> n < int (i + j)
                        \<and> (ends @ es) ! nat n \<le> s)
                 \<and> (0 < i + j \<longrightarrow> (ends @ es) ! (i + j - 1) \<le> s))"
  using assms
proof (induction ts arbitrary: i ends out)
  case Nil
  then show ?case by simp
next
  case (Cons task ts)
  from Cons.prems(1) obtain s e rest where
    a: "first_task_start_time cd i ends task = Inr s"
    and b: "task_end_time B s task = Inr e"
    and c: "schedule_loop B cd (Suc i) (ends @ [e]) ts = Inr rest"
    and o: "out = AList.update ''start_time'' (PIso s)
                    (AList.update ''deadline'' (PIso e)
                       (AList.update ''id'' (PInt (int i)) task)) # rest"
    by (auto simp: ebind_eq_Inr)
  have d0: "dependencies_before i task" using Cons.prems(3) by fastforce
  from first_task_start_time_gate [OF a d0 Cons.prems(2)] obtain ds where
    ds: "map_of task ''dependencies'' = Some (PList ds)"
    and g: "\<forall>d\<in>set ds. \<exists>n. int_value d = Some n \<and> 0 \<le> n \<and> n < int i \<and> ends ! nat n \<le> s"
      "ends \<noteq> [] \<longrightarrow> last ends \<le> s"
    by blast
  have l: "length (ends @ [e]) = Suc i" using Cons.prems(2) by simp
  have d: "\<forall>j<length ts. dependencies_before (Suc i + j) (ts ! j)"
    using Cons.prems(3) by fastforce
  from Cons.IH [OF c l d] obtain es where
    es: "length es = length ts" "length rest = length ts"
    and r: "\<forall>j<length ts. \<exists>s ds. map_of (rest ! j) ''start_time'' = Some (PIso s)
              \<and> map_of (rest ! j) ''deadline'' = Some (PIso (es ! j))
              \<and> map_of (rest ! j) ''dependencies'' = Some (PList ds)
              \<and> (\<forall>d\<in>set ds. \<exists>n. int_value d = Some n \<and> 0 \<le> n \<and> n < int (Suc i + j)
                     \<and> ((ends @ [e]) @ es) ! nat n \<le> s)
              \<and> (0 < Suc i + j \<longrightarrow> ((ends @ [e]) @ es) ! (Suc i + j - 1) \<le> s)"
    by blast
  define t where "t = AList.update ''start_time'' (PIso s)
                    (AList.update ''deadline'' (PIso e)
                       (AList.update ''id'' (PInt (int i)) task))"
  have t: "map_of t ''start_time'' = Some (PIso s)" "map_of t ''deadline'' = Some (PIso e)"
      "map_of t ''dependencies'' = Some (PList ds)"
    using ds by (simp_all add: t_def update_conv')
  from gate_step [OF t g Cons.prems(2) es r, of task]
  have "\<forall>j<length (task # ts). \<exists>s ds. map_of (out ! j) ''start_time'' = Some (PIso s)
              \<and> map_of (out ! j) ''deadline'' = Some (PIso ((e # es) ! j))
              \<and> map_of (out ! j) ''dependencies'' = Some (PList ds)
              \<and> (\<forall>d\<in>set ds. \<exists>n. int_value d = Some n \<and> 0 \<le> n \<and> n < int (i + j)
                     \<and> (ends @ e # es) ! nat n \<le> s)
              \<and> (0 < i + j \<longrightarrow> (ends @ e # es) ! (i + j - 1) \<le> s)"
    unfolding o t_def .
  moreover have "length (e # es) = length (task # ts)" "length out = length (task # ts)"
    using es o by simp_all
  ultimately show ?case by blast
qed

lemma recompute_loop_gate:
  assumes "recompute_loop B cd i ends ts = Inr out"
    and "length ends = i"
    and "\<forall>j<length ts. dependencies_before (i + j) (ts ! j)"
  shows "\<exists>es. length es = length ts \<and> length out = length ts
           \<and> (\<forall>j<length ts. \<exists>s ds. map_of (out ! j) ''start_time'' = Some (PIso s)
                 \<and> map_of (out ! j) ''deadline'' = Some (PIso (es ! j))
                 \<and> map_of (out ! j) ''dependencies'' = Some (PList ds)
                 \<and> (\<forall>d\<in>set ds. \<exists>n. int_value d = Some n \<and> 0 \<le> n \<and> n < int (i + j)
                        \<and> (ends @ es) ! nat n \<le> s)
                 \<and> (0 < i + j \<longrightarrow> (ends @ es) ! (i + j - 1) \<le> s))"
  using assms
proof (induction ts arbitrary: i ends out)
  case Nil
  then show ?case by simp
next
  case (Cons task ts)
  from Cons.prems(1) obtain s e rest where
    a: "recomputed_start_time cd i ends task = Inr s"
    and b: "task_end_time B s task = Inr e"
    and c: "recompute_loop B cd (Suc i) (ends @ [e]) ts = Inr rest"
    and o: "out = AList.update ''deadline'' (PIso e)
                    (AList.update ''start_time'' (PIso s) task) # rest"
    by (auto simp: ebind_eq_Inr)
  have d0: "dependencies_before i task" using Cons.prems(3) by fastforce
  from recomputed_start_time_gate [OF a d0 Cons.prems(2)] obtain ds where
    ds: "map_of task ''dependencies'' = Some (PList ds)"
    and g: "\<forall>d\<in>set ds. \<exists>n. int_value d = Some n \<and> 0 \<le> n \<and> n < int i \<and> ends ! nat n \<le> s"
      "ends \<noteq> [] \<longrightarrow> last ends \<le> s"
    by blast
  have l: "length (ends @ [e]) = Suc i" using Cons.prems(2) by simp
  have d: "\<forall>j<length ts. dependencies_before (Suc i + j) (ts ! j)"
    using Cons.prems(3) by fastforce
  from Cons.IH [OF c l d] obtain es where
    es: "length es = length ts" "length rest = length ts"
    and r: "\<forall>j<length ts. \<exists>s ds. map_of (rest ! j) ''start_time'' = Some (PIso s)
              \<and> map_of (rest ! j) ''deadline'' = Some (PIso (es ! j))
              \<and> map_of (rest ! j) ''dependencies'' = Some (PList ds)
              \<and> (\<forall>d\<in>set ds. \<exists>n. int_value d = Some n \<and> 0 \<le> n \<and> n < int (Suc i + j)
                     \<and> ((ends @ [e]) @ es) ! nat n \<le> s)
              \<and> (0 < Suc i + j \<longrightarrow> ((ends @ [e]) @ es) ! (Suc i + j - 1) \<le> s)"
    by blast
  define t where "t = AList.update ''deadline'' (PIso e)
                    (AList.update ''start_time'' (PIso s) task)"
  have t: "map_of t ''start_time'' = Some (PIso s)" "map_of t ''deadline'' = Some (PIso e)"
      "map_of t ''dependencies'' = Some (PList ds)"
    using ds by (simp_all add: t_def update_conv')
  from gate_step [OF t g Cons.prems(2) es r, of task]
  have "\<forall>j<length (task # ts). \<exists>s ds. map_of (out ! j) ''start_time'' = Some (PIso s)
              \<and> map_of (out ! j) ''deadline'' = Some (PIso ((e # es) ! j))
              \<and> map_of (out ! j) ''dependencies'' = Some (PList ds)
              \<and> (\<forall>d\<in>set ds. \<exists>n. int_value d = Some n \<and> 0 \<le> n \<and> n < int (i + j)
                     \<and> (ends @ e # es) ! nat n \<le> s)
              \<and> (0 < i + j \<longrightarrow> (ends @ e # es) ! (i + j - 1) \<le> s)"
    unfolding o t_def .
  moreover have "length (e # es) = length (task # ts)" "length out = length (task # ts)"
    using es o by simp_all
  ultimately show ?case by blast
qed

text \<open>From the loop's view of its output to the schedule as recorded.\<close>

lemma gate_starts_after:
  assumes "length es = length out"
    and "\<forall>j<length out. \<exists>s ds. map_of (out ! j) ''start_time'' = Some (PIso s)
                 \<and> map_of (out ! j) ''deadline'' = Some (PIso (es ! j))
                 \<and> map_of (out ! j) ''dependencies'' = Some (PList ds)
                 \<and> (\<forall>d\<in>set ds. \<exists>n. int_value d = Some n \<and> 0 \<le> n \<and> n < int (0 + j)
                        \<and> ([] @ es) ! nat n \<le> s)
                 \<and> (0 < 0 + j \<longrightarrow> ([] @ es) ! (0 + j - 1) \<le> s)"
    and "i < length out"
  shows "starts_after_dependencies out i \<and> dependencies_before i (out ! i)"
proof -
  from assms(2) [rule_format, OF assms(3)] obtain s ds where
    s: "map_of (out ! i) ''start_time'' = Some (PIso s)"
    and ds: "map_of (out ! i) ''dependencies'' = Some (PList ds)"
    and g: "\<forall>d\<in>set ds. \<exists>n. int_value d = Some n \<and> 0 \<le> n \<and> n < int i \<and> es ! nat n \<le> s"
    and p: "0 < i \<longrightarrow> es ! (i - 1) \<le> s"
    by auto
  have dl: "deadline_at_most (out ! k) s" if "k < length out" "es ! k \<le> s" for k
    using assms(2) [rule_format, OF that(1)] that(2) by (auto simp: deadline_at_most_def)
  have "case int_value d of None \<Rightarrow> False
        | Some n \<Rightarrow> 0 \<le> n \<and> nat n < length out \<and> deadline_at_most (out ! nat n) s"
    if "d \<in> set ds" for d
  proof -
    from g that obtain n where n: "int_value d = Some n" "0 \<le> n" "n < int i" "es ! nat n \<le> s"
      by blast
    then have "nat n < length out" using assms(3) by linarith
    with n dl show ?thesis by simp
  qed
  moreover have "i = 0 \<or> deadline_at_most (out ! (i - 1)) s"
    using p dl [of "i - 1"] assms(3) by (cases i) auto
  moreover have "dependencies_before i (out ! i)"
    using ds g by (fastforce simp: dependencies_before_def list_all_iff)
  ultimately show ?thesis
    using s ds by (simp add: starts_after_dependencies_def list_all_iff)
qed

lemma schedule_loop_starts:
  assumes "schedule_loop B cd 0 [] ts = Inr out"
    and "\<forall>j<length ts. dependencies_before j (ts ! j)"
  shows "length out = length ts
         \<and> (\<forall>i<length out. starts_after_dependencies out i \<and> dependencies_before i (out ! i))"
proof -
  from schedule_loop_gate [OF assms(1)] assms(2) obtain es where
    "length es = length ts" "length out = length ts"
    "\<forall>j<length ts. \<exists>s ds. map_of (out ! j) ''start_time'' = Some (PIso s)
                 \<and> map_of (out ! j) ''deadline'' = Some (PIso (es ! j))
                 \<and> map_of (out ! j) ''dependencies'' = Some (PList ds)
                 \<and> (\<forall>d\<in>set ds. \<exists>n. int_value d = Some n \<and> 0 \<le> n \<and> n < int (0 + j)
                        \<and> ([] @ es) ! nat n \<le> s)
                 \<and> (0 < 0 + j \<longrightarrow> ([] @ es) ! (0 + j - 1) \<le> s)"
    by force
  then show ?thesis using gate_starts_after [of es out] by simp
qed

lemma recompute_loop_starts:
  assumes "recompute_loop B cd 0 [] ts = Inr out"
    and "\<forall>j<length ts. dependencies_before j (ts ! j)"
  shows "length out = length ts
         \<and> (\<forall>i<length out. starts_after_dependencies out i \<and> dependencies_before i (out ! i))"
proof -
  from recompute_loop_gate [OF assms(1)] assms(2) obtain es where
    "length es = length ts" "length out = length ts"
    "\<forall>j<length ts. \<exists>s ds. map_of (out ! j) ''start_time'' = Some (PIso s)
                 \<and> map_of (out ! j) ''deadline'' = Some (PIso (es ! j))
                 \<and> map_of (out ! j) ''dependencies'' = Some (PList ds)
                 \<and> (\<forall>d\<in>set ds. \<exists>n. int_value d = Some n \<and> 0 \<le> n \<and> n < int (0 + j)
                        \<and> ([] @ es) ! nat n \<le> s)
                 \<and> (0 < 0 + j \<longrightarrow> ([] @ es) ! (0 + j - 1) \<le> s)"
    by force
  then show ?thesis using gate_starts_after [of es out] by simp
qed

lemma shrink_task_dependencies:
  "shrink_task f t = Inr t' \<Longrightarrow> dependencies_before i t' = dependencies_before i t"
  by (auto simp: shrink_task_def dependencies_before_def ebind_eq_Inr Let_def update_conv'
      split: option.splits)

lemma map_tasks_nth:
  "map_tasks f ts = Inr out \<Longrightarrow> j < length ts \<Longrightarrow> f (ts ! j) = Inr (out ! j)"
proof (induction ts arbitrary: out j)
  case Nil
  then show ?case by simp
next
  case (Cons t ts)
  then show ?case by (cases j) (auto simp: ebind_eq_Inr)
qed

lemma shrink_tasks_dependencies:
  assumes "map_tasks (shrink_task f) ts = Inr out"
    and "\<forall>j<length ts. dependencies_before j (ts ! j)"
  shows "\<forall>j<length out. dependencies_before j (out ! j)"
  using assms map_tasks_length [OF assms(1)] map_tasks_nth [OF assms(1)]
    shrink_task_dependencies
  by metis

text \<open>
  Claim C6. Take a task sequence in which the dependencies of every task are integers
  below its index, as the validator and the splitter leave them. Whenever the scheduler
  returns, on the scheduling pass alone, after compressing the hours, or after giving up
  compression, the schedule has one task per input task, and every task's recorded start
  time is at or after the recorded deadline of each of its dependencies and at or after the
  recorded deadline of the task before it.
\<close>

theorem starts_follow_dependencies:
  assumes "calculate_deadlines B ts start tf = Inr out"
    and "\<forall>j<length ts. dependencies_before j (ts ! j)"
  shows "length out = length ts \<and> (\<forall>i<length out. starts_after_dependencies out i)"
proof -
  from calculate_deadlines_cases [OF assms(1)]
  show ?thesis
  proof
    assume "schedule_loop B start 0 [] ts = Inr out"
    from schedule_loop_starts [OF this assms(2)] show ?thesis by simp
  next
    assume "\<exists>tasks1 tasks2. schedule_loop B start 0 [] ts = Inr tasks1
               \<and> tasks1 \<noteq> []
               \<and> (tasks2 = tasks1 \<or> (\<exists>f. map_tasks (shrink_task f) tasks1 = Inr tasks2))
               \<and> recompute_loop B start 0 [] tasks2 = Inr out"
    then obtain tasks1 tasks2 where
      a: "schedule_loop B start 0 [] ts = Inr tasks1"
      and b: "tasks2 = tasks1 \<or> (\<exists>f. map_tasks (shrink_task f) tasks1 = Inr tasks2)"
      and c: "recompute_loop B start 0 [] tasks2 = Inr out"
      by blast
    note s1 = schedule_loop_starts [OF a assms(2)]
    have l: "length tasks2 = length ts"
      using b s1 map_tasks_length by auto
    have "\<forall>j<length tasks2. dependencies_before j (tasks2 ! j)"
      using b s1 shrink_tasks_dependencies by blast
    from recompute_loop_starts [OF c this] l show ?thesis by simp
  qed
qed

lemma parse_one_day: "parse_timeframe_to_days (Some ''1 day'') = 1"
  by code_simp

lemmas scaling_run =
  shrink_task_def expand_task_def priority_scale_def as_number_def round1_def
  round_half_even_def

lemma design_and_build_run:
  "calculate_deadlines plain_builtins design_and_build 9 (Some ''1 day'')
     = Inr design_and_build_schedule"
  by (simp add: design_and_build_def design_and_build_schedule_def example_task_def
      parse_one_day scheduler_run scaling_run calendar_run cong: run_cong)

theorem starts_follow_dependencies_witness:
  "calculate_deadlines plain_builtins design_and_build 9 (Some ''1 day'')
     = Inr design_and_build_schedule
   \<and> dependencies_before 0 (design_and_build ! 0)
   \<and> dependencies_before 1 (design_and_build ! 1)
   \<and> length design_and_build_schedule = length design_and_build
   \<and> starts_after_dependencies design_and_build_schedule 0
   \<and> starts_after_dependencies design_and_build_schedule 1
   \<and> map_of (design_and_build_schedule ! 0) ''deadline'' = Some (PIso (63 / 5))
   \<and> map_of (design_and_build_schedule ! 1) ''start_time'' = Some (PIso (63 / 5))"
proof -
  have d: "dependencies_before 0 (design_and_build ! 0)"
    "dependencies_before 1 (design_and_build ! 1)"
    by (simp_all add: design_and_build_def example_task_def dependencies_before_def)
  have l: "length design_and_build = 2" by (simp add: design_and_build_def)
  have a: "\<forall>j<length design_and_build. dependencies_before j (design_and_build ! j)"
    using d l by (simp add: less_Suc_eq numeral_2_eq_2)
  have m: "length design_and_build_schedule = 2"
    "map_of (design_and_build_schedule ! 0) ''deadline'' = Some (PIso (63 / 5))"
    "map_of (design_and_build_schedule ! 1) ''start_time'' = Some (PIso (63 / 5))"
    by (simp_all add: design_and_build_schedule_def)
  from starts_follow_dependencies [OF design_and_build_run a] m
  have "starts_after_dependencies design_and_build_schedule 0"
    "starts_after_dependencies design_and_build_schedule 1"
    by simp_all
  then show ?thesis using design_and_build_run d l m by simp
qed

subsection \<open>Plans that are returned\<close>

lemma parse_one_week: "parse_timeframe_to_days (Some ''1 week'') = 7"
  by code_simp

lemmas pipeline_run =
  validate_timeframe_compliance_def scale_to_timeframe_def logged_def log_title_def
  timeframe_given_def item_def

text \<open>The pipeline after the estimator, given what the estimator returned.\<close>

lemma generate_task_plan_estimated:
  assumes "validate_and_estimate B constraints raw = Inr adjusted"
  shows "generate_task_plan B raw constraints timeframe start
         = ebind (validate_timeframe_compliance adjusted timeframe)
             (\<lambda>compliant.
           ebind (if timeframe_given timeframe \<and> \<not> compliant
                  then scale_to_timeframe adjusted timeframe else Inr adjusted)
             (\<lambda>validated_tasks.
           ebind (validate_timeframe_compliance validated_tasks timeframe)
             (\<lambda>compliant_now.
                if timeframe_given timeframe \<and> \<not> compliant_now then
                  ebind (sum_estimated_hours validated_tasks)
                    (\<lambda>total. Inl (timeframe_error timeframe total))
                else
                  ebind (split_long_tasks B validated_tasks 24 8)
                    (\<lambda>tasks_prepared.
                  ebind (calculate_deadlines B tasks_prepared start timeframe)
                    (\<lambda>tasks_with_deadlines.
                  ebind (sum_estimated_hours tasks_with_deadlines)
                    (\<lambda>total_hours.
                       Inr \<lparr>tasks = tasks_with_deadlines,
                            total_estimated_hours = total_hours,
                            estimated_completion =
                              (if tasks_with_deadlines = [] then PNone
                               else item (last tasks_with_deadlines) ''deadline'')\<rparr>))))))"
proof -
  from assms obtain fixed where
    "validate_and_fix_tasks B raw = Inr fixed"
    "apply_practical_time_adjustments B fixed constraints = Inr adjusted"
    by (auto simp: validate_and_estimate_def ebind_eq_Inr)
  then show ?thesis by (simp add: generate_task_plan_def)
qed

lemma small_docs_estimated:
  "validate_and_estimate plain_builtins None small_docs
     = Inr [estimated_doc (1 / 2) (3 / 10), estimated_doc (1 / 2) (3 / 10),
            estimated_doc (17 / 2) (83 / 10)]"
  by (simp add: small_docs_def doc_task_def estimated_doc_def validator_run estimator_run
      cong: run_cong)

lemma small_docs_compliant:
  "validate_timeframe_compliance
     [estimated_doc (1 / 2) (3 / 10), estimated_doc (1 / 2) (3 / 10),
      estimated_doc (17 / 2) (83 / 10)] (Some ''1 day'') = Inr True"
  by (simp add: estimated_doc_def pipeline_run parse_one_day get_or_def as_number_def
      cong: run_cong)

lemma small_docs_split:
  "split_long_tasks plain_builtins
     [estimated_doc (1 / 2) (3 / 10), estimated_doc (1 / 2) (3 / 10),
      estimated_doc (17 / 2) (83 / 10)] 24 8
   = Inr [estimated_doc 1 (3 / 10) @ [(''id'', PInt 0)],
          estimated_doc 1 (3 / 10) @ [(''id'', PInt 1)],
          estimated_doc (17 / 2) (83 / 10) @ [(''id'', PInt 2)]]"
  by (simp add: estimated_doc_def validator_run splitter_run cong: run_cong)

lemma small_docs_scheduled:
  "calculate_deadlines plain_builtins
     [estimated_doc 1 (3 / 10) @ [(''id'', PInt 0)],
      estimated_doc 1 (3 / 10) @ [(''id'', PInt 1)],
      estimated_doc (17 / 2) (83 / 10) @ [(''id'', PInt 2)]] 9 (Some ''1 day'')
   = Inr [estimated_doc 1 (3 / 10)
            @ [(''id'', PInt 0), (''deadline'', PIso 10), (''start_time'', PIso 9)],
          estimated_doc 1 (3 / 10)
            @ [(''id'', PInt 1), (''deadline'', PIso 10), (''start_time'', PIso 10)],
          estimated_doc (17 / 2) (83 / 10)
            @ [(''id'', PInt 2), (''deadline'', PIso (67 / 2)), (''start_time'', PIso 10)]]"
  by (simp add: estimated_doc_def parse_one_day scheduler_run scaling_run calendar_run
      as_number_def cong: run_cong)

lemma small_docs_plan:
  "generate_task_plan plain_builtins small_docs None (Some ''1 day'') 9
     = Inr \<lparr>tasks =
              [estimated_doc 1 (3 / 10)
                 @ [(''id'', PInt 0), (''deadline'', PIso 10), (''start_time'', PIso 9)],
               estimated_doc 1 (3 / 10)
                 @ [(''id'', PInt 1), (''deadline'', PIso 10), (''start_time'', PIso 10)],
               estimated_doc (17 / 2) (83 / 10)
                 @ [(''id'', PInt 2), (''deadline'', PIso (67 / 2)),
                    (''start_time'', PIso 10)]],
            total_estimated_hours = 21 / 2,
            estimated_completion = PIso (67 / 2)\<rparr>"
  unfolding generate_task_plan_estimated [OF small_docs_estimated]
  by (simp add: small_docs_compliant small_docs_split small_docs_scheduled timeframe_given_def)
     (simp add: estimated_doc_def get_or_def as_number_def item_def)

subsection \<open>The scheduler raises no timeframe violation\<close>

lemma rejected_Inr [simp]: "\<not> rejected (Inr x)"
  by (simp add: rejected_def)

lemma rejected_Inl [simp]:
  "\<not> rejected (Inl TypeError)" "\<not> rejected (Inl ValueError)" "\<not> rejected (Inl KeyError)"
  "\<not> rejected (Inl IndexError)" "\<not> rejected (Inl AttributeError)"
  "\<not> rejected (Inl ZeroDivisionError)" "rejected (Inl (LLMGenerationError v))"
  by (simp_all add: rejected_def)

lemma rejected_ebind:
  "rejected (ebind m f) \<longleftrightarrow> rejected m \<or> (\<exists>y. m = Inr y \<and> rejected (f y))"
  by (cases m) (simp_all add: rejected_def)

lemma as_number_not_rejected [simp]: "\<not> rejected (as_number v)"
  by (simp add: as_number_def split: option.splits)

lemma py_float_not_rejected [simp]: "\<not> rejected (py_float B v)"
  by (simp add: py_float_def split: option.splits)

lemma index_end_not_rejected [simp]: "\<not> rejected (index_end ends n)"
  by (simp add: index_end_def Let_def)

lemma collect_dep_end_times_not_rejected [simp]: "\<not> rejected (collect_dep_end_times i ends ds)"
  by (induction ds) (simp_all add: rejected_ebind split: option.splits)

lemma dep_end_times_not_rejected [simp]: "\<not> rejected (dep_end_times i ends v)"
  by (simp add: dep_end_times_def split: pyval.splits)

lemma first_task_start_time_not_rejected [simp]:
  "\<not> rejected (first_task_start_time cd i ends task)"
  by (simp add: first_task_start_time_def Let_def rejected_ebind)

lemma recomputed_start_time_not_rejected [simp]:
  "\<not> rejected (recomputed_start_time cd i ends task)"
  by (simp add: recomputed_start_time_def Let_def rejected_ebind)

lemma task_end_time_not_rejected [simp]: "\<not> rejected (task_end_time B s task)"
  by (simp add: task_end_time_def rejected_ebind split: option.splits)

lemma schedule_loop_not_rejected [simp]: "\<not> rejected (schedule_loop B cd i ends ts)"
  by (induction ts arbitrary: i ends) (simp_all add: rejected_ebind)

lemma recompute_loop_not_rejected [simp]: "\<not> rejected (recompute_loop B cd i ends ts)"
  by (induction ts arbitrary: i ends) (simp_all add: rejected_ebind)

lemma shrink_task_not_rejected [simp]: "\<not> rejected (shrink_task f t)"
  by (simp add: shrink_task_def Let_def rejected_ebind split: option.splits)

lemma map_tasks_not_rejected: "(\<And>t. \<not> rejected (f t)) \<Longrightarrow> \<not> rejected (map_tasks f ts)"
  by (induction ts) (simp_all add: rejected_ebind)

lemma read_iso_not_rejected [simp]: "\<not> rejected (read_iso t k)"
  by (simp add: read_iso_def split: option.splits pyval.splits)

lemma sum_estimated_hours_not_rejected [simp]: "\<not> rejected (sum_estimated_hours ts)"
  by (induction ts) (simp_all add: rejected_ebind)

text \<open>
  On no input does the scheduler end in a timeframe violation: where it gives up the
  compression it recomputes the deadlines and returns the tasks.
\<close>

lemma calculate_deadlines_not_rejected: "\<not> rejected (calculate_deadlines B ts start tf)"
  by (simp add: calculate_deadlines_def Let_def rejected_ebind map_tasks_not_rejected)

lemma split_task_not_rejected [simp]: "\<not> rejected (split_task B th ch olpi pos task)"
  by (simp add: split_task_def effective_hours_def deps_to_iterate_def split_parts_def Let_def
      rejected_ebind split: pyval.splits)

lemma split_loop_not_rejected [simp]: "\<not> rejected (split_loop B th ch idx new olpi ts)"
  by (induction ts arbitrary: idx new olpi) (simp_all add: rejected_ebind)

lemma split_long_tasks_not_rejected [simp]: "\<not> rejected (split_long_tasks B ts th ch)"
  by (simp add: split_long_tasks_def rejected_ebind split: prod.splits)

text \<open>
  After the estimator, the only timeframe violation is that of step 4c, which looks at the
  hours as they are before the tasks are split and scheduled.
\<close>

lemma timeframe_error_rejected [simp]: "rejected (Inl (timeframe_error timeframe hours))"
  by (simp add: timeframe_error_def Let_def)

lemma validate_timeframe_compliance_not_rejected [simp]:
  "\<not> rejected (validate_timeframe_compliance ts timeframe)"
  by (simp add: validate_timeframe_compliance_def Let_def rejected_ebind)

lemma scale_to_timeframe_not_rejected [simp]: "\<not> rejected (scale_to_timeframe ts timeframe)"
proof -
  have e: "\<not> rejected (expand_task f t)" for f t
    by (simp add: expand_task_def Let_def rejected_ebind split: option.splits)
  have l: "\<not> rejected (log_title t)" for t
    by (simp add: log_title_def split: option.splits pyval.splits)
  have "\<not> rejected (logged (expand_task f) t)" "\<not> rejected (logged (shrink_task f) t)" for f t
    by (simp_all add: logged_def rejected_ebind e l)
  then show ?thesis
    by (simp add: scale_to_timeframe_def Let_def rejected_ebind map_tasks_not_rejected)
qed

lemma generate_task_plan_rejected:
  assumes "validate_and_estimate B constraints raw = Inr adjusted"
  shows "rejected (generate_task_plan B raw constraints timeframe start)
         \<longleftrightarrow> timeframe_given timeframe
             \<and> (\<exists>validated_tasks hours.
                  scale_to_timeframe adjusted timeframe = Inr validated_tasks
                  \<and> validate_timeframe_compliance adjusted timeframe = Inr False
                  \<and> validate_timeframe_compliance validated_tasks timeframe = Inr False
                  \<and> sum_estimated_hours validated_tasks = Inr hours)"
proof (cases "validate_timeframe_compliance adjusted timeframe")
  case (Inl e)
  then have "\<not> rejected (Inl e :: error + bool)"
    using validate_timeframe_compliance_not_rejected [of adjusted timeframe] by simp
  then have "\<not> rejected (Inl e :: error + plan)" by (simp add: rejected_def)
  then show ?thesis
    unfolding generate_task_plan_estimated [OF assms] using Inl by simp
next
  case (Inr compliant)
  have tail: "rejected
       (ebind (validate_timeframe_compliance v timeframe)
          (\<lambda>compliant_now.
             if timeframe_given timeframe \<and> \<not> compliant_now then
               ebind (sum_estimated_hours v) (\<lambda>total. Inl (timeframe_error timeframe total))
             else
               ebind (split_long_tasks B v 24 8)
                 (\<lambda>tasks_prepared.
               ebind (calculate_deadlines B tasks_prepared start timeframe)
                 (\<lambda>tasks_with_deadlines.
               ebind (sum_estimated_hours tasks_with_deadlines)
                 (\<lambda>total_hours.
                    Inr \<lparr>tasks = tasks_with_deadlines,
                         total_estimated_hours = total_hours,
                         estimated_completion =
                           (if tasks_with_deadlines = [] then PNone
                            else item (last tasks_with_deadlines) ''deadline'')\<rparr>)))))
     \<longleftrightarrow> timeframe_given timeframe
         \<and> validate_timeframe_compliance v timeframe = Inr False
         \<and> (\<exists>hours. sum_estimated_hours v = Inr hours)" for v
    by (auto simp: rejected_ebind calculate_deadlines_not_rejected)
  show ?thesis
  proof (cases "timeframe_given timeframe \<and> \<not> compliant")
    case True
    show ?thesis
    proof (cases "scale_to_timeframe adjusted timeframe")
      case (Inl e)
      then have "\<not> rejected (Inl e :: error + pydict list)"
        using scale_to_timeframe_not_rejected [of adjusted timeframe] by simp
      then have "\<not> rejected (Inl e :: error + plan)" by (simp add: rejected_def)
      then show ?thesis
        unfolding generate_task_plan_estimated [OF assms] using Inl Inr True by simp
    next
      case scaled: (Inr validated_tasks)
      show ?thesis
        unfolding generate_task_plan_estimated [OF assms]
        using scaled Inr True tail [of validated_tasks] by auto
    qed
  next
    case False
    show ?thesis
      unfolding generate_task_plan_estimated [OF assms]
      using Inr False tail [of adjusted] by auto
  qed
qed

lemma long_doc_estimated:
  "validate_and_estimate plain_builtins None [doc_task (499 / 5)]
     = Inr [estimated_doc 100 (499 / 5)]"
  by (simp add: doc_task_def estimated_doc_def validator_run estimator_run cong: run_cong)

lemma long_doc_scaled:
  "scale_to_timeframe [estimated_doc 100 (499 / 5)] (Some ''1 week'')
     = Inr [estimated_doc (319 / 5) (499 / 5)]"
  by (simp add: estimated_doc_def pipeline_run parse_one_week scaling_run get_or_def
      cong: run_cong)

lemma long_doc_plan:
  "hours_in_plan (generate_task_plan plain_builtins [doc_task (499 / 5)] None (Some ''1 week'') 9)
     = Inr (replicate 7 (PFloat 7) @ [PFloat (34 / 5)], 279 / 5)"
  unfolding generate_task_plan_estimated [OF long_doc_estimated]
  by (simp add: hours_in_plan_def estimated_doc_def pipeline_run parse_one_week validator_run
      splitter_run scheduler_run scaling_run calendar_run cong: run_cong)

lemma abandoned_scaling_run:
  "map_sum id (map (\<lambda>t. item t ''estimated_hours''))
     (calculate_deadlines plain_builtins [doc_task 1, doc_task 1, doc_task (17 / 2)] 9
        (Some ''1 day''))
   = Inr [PFloat 1, PFloat 1, PFloat (17 / 2)]"
  by (simp add: doc_task_def parse_one_day scheduler_run scaling_run calendar_run item_def
      cong: run_cong)

text \<open>
  Claim C3: where the scale factor needed is below 0.8 the pipeline gives up scaling and
  rejects the plan with the timeframe violation, and no plan is accepted after being
  compressed by a factor below 0.8. The code does neither. A single documentation task of
  99.8 hours with the timeframe \<^verbatim>\<open>1 week\<close> (56 hours available, at most 67.2 allowed) is
  estimated at 100 hours; step 4b, which has no lower limit on the factor, compresses it
  by 0.672 times 0.95 to 63.8 hours, step 4c finds the plan compliant, and the plan is
  returned, with 55.8 hours after the scheduler has compressed the eight chunks once more.
  And where the scheduler itself finds a factor below 0.8 (three tasks of 1, 1 and 8.5
  hours for one day: 8 / 10.5) it leaves the hours as they are and returns the tasks; no
  timeframe violation follows, because step 4c has already run.
\<close>

theorem unrealistic_compression_accepted:
  "validate_and_estimate plain_builtins None [doc_task (499 / 5)]
     = Inr [estimated_doc 100 (499 / 5)]
   \<and> rat_of_int (parse_timeframe_to_days (Some ''1 week'') * 8) = 56
   \<and> 56 * (6 / 5) / 100 < (4 / 5 :: rat)
   \<and> scale_to_timeframe [estimated_doc 100 (499 / 5)] (Some ''1 week'')
       = Inr [estimated_doc (319 / 5) (499 / 5)]
   \<and> hours_in_plan
         (generate_task_plan plain_builtins [doc_task (499 / 5)] None (Some ''1 week'') 9)
       = Inr (replicate 7 (PFloat 7) @ [PFloat (34 / 5)], 279 / 5)
   \<and> \<not> rejected
         (generate_task_plan plain_builtins [doc_task (499 / 5)] None (Some ''1 week'') 9)
   \<and> rat_of_int (parse_timeframe_to_days (Some ''1 day'') * 8) / (1 + 1 + 17 / 2) < 4 / 5
   \<and> map_sum id (map (\<lambda>t. item t ''estimated_hours''))
         (calculate_deadlines plain_builtins [doc_task 1, doc_task 1, doc_task (17 / 2)] 9
            (Some ''1 day''))
       = Inr [PFloat 1, PFloat 1, PFloat (17 / 2)]"
proof -
  have "\<not> rejected
         (generate_task_plan plain_builtins [doc_task (499 / 5)] None (Some ''1 week'') 9)"
    using long_doc_plan
    by (cases "generate_task_plan plain_builtins [doc_task (499 / 5)] None (Some ''1 week'') 9")
       (simp_all add: hours_in_plan_def)
  then show ?thesis
    using long_doc_estimated long_doc_scaled long_doc_plan abandoned_scaling_run
    by (simp add: parse_one_week parse_one_day)
qed

text \<open>
  Claim C4: the total hours of a returned plan are within 80 and 120 percent of the
  available hours, give or take 0.01. Not so: step 4c checks the hours before the tasks
  are split and scheduled, and nothing checks them afterwards. Tasks of 0.3, 0.3 and 8.3
  hours with the timeframe \<^verbatim>\<open>1 day\<close> are estimated at 0.5, 0.5 and 8.5 hours, which is
  within 6.4 and 9.6; the splitter raises the hours below one to 1.0, the scheduler finds
  the factor 8 / 10.5 below 0.8 and leaves the hours as they are, and the plan is returned
  with 10.5 hours, which the compliance check itself refuses.
\<close>

theorem returned_plan_outside_band:
  "validate_and_estimate plain_builtins None small_docs
     = Inr [estimated_doc (1 / 2) (3 / 10), estimated_doc (1 / 2) (3 / 10),
            estimated_doc (17 / 2) (83 / 10)]
   \<and> hours_in_plan (generate_task_plan plain_builtins small_docs None (Some ''1 day'') 9)
       = Inr ([PFloat 1, PFloat 1, PFloat (17 / 2)], 21 / 2)
   \<and> rat_of_int (parse_timeframe_to_days (Some ''1 day'') * 8) = 8
   \<and> 8 * (6 / 5) + 1 / 100 < (21 / 2 :: rat)
   \<and> plan_compliance (generate_task_plan plain_builtins small_docs None (Some ''1 day'') 9)
         (Some ''1 day'')
       = Inr False"
proof -
  have "plan_compliance (generate_task_plan plain_builtins small_docs None (Some ''1 day'') 9)
          (Some ''1 day'') = Inr False"
    unfolding small_docs_plan plan_compliance_def
    by (simp add: estimated_doc_def pipeline_run parse_one_day get_or_def as_number_def
        cong: run_cong)
  moreover have "hours_in_plan
        (generate_task_plan plain_builtins small_docs None (Some ''1 day'') 9)
      = Inr ([PFloat 1, PFloat 1, PFloat (17 / 2)], 21 / 2)"
    unfolding small_docs_plan by (simp add: hours_in_plan_def estimated_doc_def item_def)
  ultimately show ?thesis using small_docs_estimated by (simp add: parse_one_day)
qed

end
